theory Spec2Isabelle
  imports Main "HOL-Library.Sublist"
begin

section \<open>Shared Go values\<close>

text \<open>
  A Go \<^verbatim>\<open>error\<close> is represented by the text its \<^verbatim>\<open>Error()\<close> method yields; a nil
  error is \<open>None\<close> of \<open>error option\<close>. \<open>Panic\<close> stands for a run-time panic (an index
  out of range), kept apart from returned errors.
\<close>

datatype error = Error string | Panic string

fun error_msg :: "error \<Rightarrow> string" where
  "error_msg (Error m) = m"
| "error_msg (Panic m) = m"

definition nl :: string where
  "nl = [CHR 0x0A]"

definition sq :: string where
  "sq = [CHR 0x27]"

text \<open>\<^verbatim>\<open>strings.Split(s, sep)\<close> for a separator of one byte: the text is cut at every
  occurrence of the separator, so \<open>n\<close> separators give \<open>n + 1\<close> tokens, empty ones
  included.\<close>

fun splitFrom :: "char \<Rightarrow> string \<Rightarrow> string \<Rightarrow> string list" where
  "splitFrom sep cur [] = [cur]"
| "splitFrom sep cur (c # cs) =
     (if c = sep then cur # splitFrom sep [] cs else splitFrom sep (cur @ [c]) cs)"

definition Split :: "string \<Rightarrow> char \<Rightarrow> string list" where
  "Split s sep = splitFrom sep [] s"

text \<open>\<^verbatim>\<open>strings.Join(elems, sep)\<close>.\<close>

fun Join :: "string list \<Rightarrow> string \<Rightarrow> string" where
  "Join [] sep = []"
| "Join [x] sep = x"
| "Join (x # y # ys) sep = x @ sep @ Join (y # ys) sep"

text \<open>\<^verbatim>\<open>strings.Contains(s, substr)\<close>: \<open>substr\<close> occurs in \<open>s\<close> as a contiguous block.\<close>

fun Contains :: "string \<Rightarrow> string \<Rightarrow> bool" where
  "Contains [] substr = (substr = [])"
| "Contains (c # cs) substr = (prefix substr (c # cs) \<or> Contains cs substr)"

text \<open>The streams a child process can be wired to: the parent's own standard streams,
  the two in-memory buffers of the capturing runner, or a reader/writer handed in by the
  caller (named by a number).\<close>

datatype stream = OsStdin | OsStdout | OsStderr | StdoutBuffer | StderrBuffer | Handle nat

text \<open>The fields of \<^verbatim>\<open>exec.Cmd\<close> the code sets. \<open>Env = None\<close> is Go's nil \<^verbatim>\<open>Env\<close>.\<close>

record Cmd =
  Path :: string
  Args :: "string list"
  Env :: "string list option"
  Stdin :: "stream option"
  Stdout :: "stream option"
  Stderr :: "stream option"

text \<open>\<^verbatim>\<open>exec.Command(name, arg...)\<close>: \<^verbatim>\<open>Args\<close> holds the name followed by the arguments.\<close>

definition Command :: "string \<Rightarrow> string list \<Rightarrow> Cmd" where
  "Command name arg =
     \<lparr>Path = name, Args = name # arg, Env = None, Stdin = None, Stdout = None, Stderr = None\<rparr>"

section \<open>The file system seen by \<^verbatim>\<open>os.MkdirAll\<close>\<close>

text \<open>
  Directories and regular files sit at canonical paths (lists of names below the root);
  the root always is a directory. There are no symbolic links and no permissions, and
  nothing else runs at the same time.
\<close>

datatype node = DirNode | FileNode

datatype errno = ENOENT | ENOTDIR | EEXIST

fun strerror :: "errno \<Rightarrow> string" where
  "strerror ENOENT = ''no such file or directory''"
| "strerror ENOTDIR = ''not a directory''"
| "strerror EEXIST = ''file exists''"

record vfs =
  nodes :: "string list \<rightharpoonup> node"
  cwd :: "string list"

definition PathError :: "string \<Rightarrow> string \<Rightarrow> errno \<Rightarrow> error" where
  "PathError op path e = Error (op @ '' '' @ path @ '': '' @ strerror e)"

definition node_at :: "vfs \<Rightarrow> string list \<Rightarrow> node option" where
  "node_at v k = (if k = [] then Some DirNode else nodes v k)"

definition components :: "string \<Rightarrow> string list" where
  "components path = filter (\<lambda>c. c \<noteq> []) (Split path (CHR ''/''))"

definition path_start :: "vfs \<Rightarrow> string \<Rightarrow> string list" where
  "path_start v path = (if path \<noteq> [] \<and> hd path = CHR ''/'' then [] else cwd v)"

definition enter :: "string list \<Rightarrow> string \<Rightarrow> string list" where
  "enter cur c = (if c = ''.'' then cur else if c = ''..'' then butlast cur else cur @ [c])"

text \<open>Path resolution: every directory that is entered must exist and be a directory; the
  place the last component names is returned whether or not something is there.\<close>

fun walk :: "vfs \<Rightarrow> string list \<Rightarrow> string list \<Rightarrow> errno + string list" where
  "walk v cur [] = Inr cur"
| "walk v cur (c # cs) =
     (case node_at v cur of
        None \<Rightarrow> Inl ENOENT
      | Some FileNode \<Rightarrow> Inl ENOTDIR
      | Some DirNode \<Rightarrow> walk v (enter cur c) cs)"

definition lookup_path :: "vfs \<Rightarrow> string \<Rightarrow> errno + string list" where
  "lookup_path v path =
     (if path = [] then Inl ENOENT else walk v (path_start v path) (components path))"

definition Stat :: "vfs \<Rightarrow> string \<Rightarrow> errno + node" where
  "Stat v path =
     (case lookup_path v path of
        Inl e \<Rightarrow> Inl e
      | Inr k \<Rightarrow> (case node_at v k of None \<Rightarrow> Inl ENOENT | Some n \<Rightarrow> Inr n))"

definition Lstat :: "vfs \<Rightarrow> string \<Rightarrow> errno + node" where
  "Lstat v path = Stat v path"

text \<open>\<^verbatim>\<open>os.Mkdir\<close>: one directory, whose parent must exist.\<close>

definition os_Mkdir :: "vfs \<Rightarrow> string \<Rightarrow> errno + vfs" where
  "os_Mkdir v path =
     (case lookup_path v path of
        Inl e \<Rightarrow> Inl e
      | Inr k \<Rightarrow>
          (case node_at v k of
             Some n \<Rightarrow> Inl EEXIST
           | None \<Rightarrow> Inr (v\<lparr>nodes := (nodes v)(k \<mapsto> DirNode)\<rparr>)))"

text \<open>The parent of a path as \<^verbatim>\<open>os.MkdirAll\<close> computes it: trailing separators are
  skipped, then the last name; what is left, with its separator, is the parent.\<close>

definition parentOf :: "string \<Rightarrow> string" where
  "parentOf path =
     rev (dropWhile (\<lambda>c. c \<noteq> CHR ''/'') (dropWhile (\<lambda>c. c = CHR ''/'') (rev path)))"

text \<open>\<^verbatim>\<open>os.MkdirAll(path, perm)\<close> of the Go standard library: the fast path answers from
  \<^verbatim>\<open>Stat\<close>; otherwise the parent is made first, then \<^verbatim>\<open>Mkdir\<close> is called, and a failure
  of \<^verbatim>\<open>Mkdir\<close> is forgiven when the path turns out to be a directory.\<close>

function MkdirAll :: "string \<Rightarrow> vfs \<Rightarrow> error option \<times> vfs" where
  "MkdirAll path v =
     (case Stat v path of
        Inr DirNode \<Rightarrow> (None, v)
      | Inr FileNode \<Rightarrow> (Some (PathError ''mkdir'' path ENOTDIR), v)
      | Inl e0 \<Rightarrow>
          (case (if parentOf path \<noteq> [] then MkdirAll (parentOf path) v else (None, v)) of
             (Some e, v1) \<Rightarrow> (Some e, v1)
           | (None, v1) \<Rightarrow>
               (case os_Mkdir v1 path of
                  Inr v2 \<Rightarrow> (None, v2)
                | Inl en \<Rightarrow>
                    (case Lstat v1 path of
                       Inr DirNode \<Rightarrow> (None, v1)
                     | Inr FileNode \<Rightarrow> (Some (PathError ''mkdir'' path en), v1)
                     | Inl e1 \<Rightarrow> (Some (PathError ''mkdir'' path en), v1)))))"
  by pat_completeness auto
termination
proof (relation "measure (\<lambda>(path, v). length path)")
  show "wf (measure (\<lambda>(path, v). length path))"
    by simp
next
  fix path :: string and v :: vfs and e0 :: errno
  assume ne: "parentOf path \<noteq> []"
  define r where "r = dropWhile (\<lambda>c. c = CHR ''/'') (rev path)"
  have p: "parentOf path = rev (dropWhile (\<lambda>c. c \<noteq> CHR ''/'') r)"
    unfolding parentOf_def r_def by (rule refl)
  with ne obtain x xs where rx: "r = x # xs"
    by (cases r) simp_all
  from rx have ne_r: "dropWhile (\<lambda>c. c = CHR ''/'') (rev path) \<noteq> []"
    unfolding r_def by simp
  from hd_dropWhile [OF ne_r] have "hd r \<noteq> CHR ''/''"
    unfolding r_def .
  with rx have "x \<noteq> CHR ''/''"
    by simp
  with rx p have "length (parentOf path) = length (dropWhile (\<lambda>c. c \<noteq> CHR ''/'') xs)"
    by simp
  also have "\<dots> \<le> length xs"
    by (rule length_dropWhile_le)
  also have "\<dots> < length r"
    by (simp add: rx)
  also have "\<dots> \<le> length (rev path)"
    unfolding r_def by (rule length_dropWhile_le)
  finally show "((parentOf path, v), (path, v)) \<in> measure (\<lambda>(path, v). length path)"
    by simp
qed

section \<open>The step interpreter: \<^verbatim>\<open>RunDeploy\<close>\<close>

text \<open>The plan as \<^verbatim>\<open>RunDeploy\<close> reads it: the fields of the loaded document and of
  \<^verbatim>\<open>SdkStatus\<close> that the function uses.\<close>

record FileSpec =
  Source :: string
  Destination :: string

record Step =
  Name :: string
  Mkdir :: string
  Exec :: string
  File :: FileSpec

record SDKSpec =
  Steps :: "Step list"

record SDKInit =
  Spec :: SDKSpec

record SdkStatus =
  Dir :: string
  SdkName :: string

text \<open>The machine the plan runs on: the file system, and whatever else external
  commands can see and change (\<open>ext\<close>). \<open>written\<close> is what \<^verbatim>\<open>RunDeploy\<close> itself has
  written to its writer \<^verbatim>\<open>w\<close>.\<close>

record 'x host =
  fsys :: vfs
  ext :: 'x

record 'x dstate =
  written :: string
  host :: "'x host"

text \<open>What \<^verbatim>\<open>RunDeploy\<close> calls outside itself: the plan loader, the template engine
  (\<^verbatim>\<open>InterpretString\<close> returns its text together with its error, as the Go function
  does), the search path, the environment and the child process.\<close>

record ('x, 'v) deploy_sys =
  LoadSDKInit :: "string \<Rightarrow> 'x host \<Rightarrow> error + SDKInit"
  InterpretString :: "string \<Rightarrow> (string \<rightharpoonup> 'v) \<Rightarrow> string \<times> error option"
  RenderTemplate :: "string \<Rightarrow> string \<Rightarrow> (string \<rightharpoonup> 'v) \<Rightarrow> 'x host \<Rightarrow> error option \<times> 'x host"
  LookPath :: "string \<Rightarrow> 'x host \<Rightarrow> string \<times> error option"
  Environ :: "'x host \<Rightarrow> string list"
  Run :: "Cmd \<Rightarrow> 'x host \<Rightarrow> error option \<times> 'x host"

definition Fprintf :: "string \<Rightarrow> 'x dstate \<Rightarrow> 'x dstate" where
  "Fprintf text s = s\<lparr>written := written s @ text\<rparr>"

definition banner :: "SdkStatus \<Rightarrow> string" where
  "banner sdk = ''Using SDK: '' @ SdkName sdk @ '' deploy plans'' @ nl"

text \<open>The progress line of a step; the three bytes are the note sign in UTF-8.\<close>

definition stepMarker :: "Step \<Rightarrow> string" where
  "stepMarker step = '' '' @ [CHR 0xE2, CHR 0x99, CHR 0xAB] @ '' '' @ Name step @ nl"

definition os_MkdirAll :: "string \<Rightarrow> 'x dstate \<Rightarrow> error option \<times> 'x dstate" where
  "os_MkdirAll path s =
     (case MkdirAll path (fsys (host s)) of
        (err, v) \<Rightarrow> (err, s\<lparr>host := (host s)\<lparr>fsys := v\<rparr>\<rparr>))"

definition on_host :: "('x host \<Rightarrow> error option \<times> 'x host) \<Rightarrow> 'x dstate \<Rightarrow> error option \<times> 'x dstate" where
  "on_host f s = (case f (host s) of (err, h) \<Rightarrow> (err, s\<lparr>host := h\<rparr>))"

definition invalidConfig :: "Step \<Rightarrow> error" where
  "invalidConfig step =
     Error (''invalid config step '' @ sq @ Name step @ sq @ '' - no command specified'')"

text \<open>One pass through the body of the \<^verbatim>\<open>for\<close> loop. The result \<open>Some e\<close> is the
  \<^verbatim>\<open>return err\<close> that leaves the function; \<open>None\<close> goes on to the next step.\<close>

definition runStep ::
  "('x, 'v) deploy_sys \<Rightarrow> SdkStatus \<Rightarrow> (string \<rightharpoonup> 'v) \<Rightarrow> Step \<Rightarrow> 'x dstate \<Rightarrow> error option \<times> 'x dstate"
where
  "runStep sys sdk data step s0 =
     (let s = Fprintf (stepMarker step) s0 in
      if Mkdir step \<noteq> [] then
        (case InterpretString sys (Mkdir step) data of
           (createDir, err) \<Rightarrow>
             (case os_MkdirAll createDir s of
                (Some err, s1) \<Rightarrow> (Some err, s1)
              | (None, s1) \<Rightarrow> (None, s1)))
      else if Exec step \<noteq> [] then
        (let parts = Split (Exec step) (CHR '' '') in
         case parts of
           [] \<Rightarrow> (Some (Panic ''index out of range [0] with length 0''), s)
         | part0 # rest \<Rightarrow>
             (case LookPath sys part0 (host s) of
                (path, Some err) \<Rightarrow> (Some err, s)
              | (path, None) \<Rightarrow>
                  (let args = (if length parts > 0 then drop 1 parts else []);
                       cmd = (Command path args)
                               \<lparr>Env := Some (Environ sys (host s)),
                                Stdin := Some OsStdin,
                                Stdout := Some OsStdout,
                                Stderr := Some OsStderr\<rparr>
                   in on_host (Run sys cmd) s)))
      else if Source (File step) \<noteq> [] then
        (let sourceFile = Dir sdk @ ''/'' @ Source (File step) in
         case InterpretString sys (Destination (File step)) data of
           (outFile, Some err) \<Rightarrow> (Some err, s)
         | (outFile, None) \<Rightarrow> on_host (RenderTemplate sys sourceFile outFile data) s)
      else (Some (invalidConfig step), s))"

fun runSteps ::
  "('x, 'v) deploy_sys \<Rightarrow> SdkStatus \<Rightarrow> (string \<rightharpoonup> 'v) \<Rightarrow> Step list \<Rightarrow> 'x dstate \<Rightarrow> error option \<times> 'x dstate"
where
  "runSteps sys sdk data [] s = (None, s)"
| "runSteps sys sdk data (step # rest) s =
     (case runStep sys sdk data step s of
        (Some err, s1) \<Rightarrow> (Some err, s1)
      | (None, s1) \<Rightarrow> runSteps sys sdk data rest s1)"

definition RunDeploy :: "('x, 'v) deploy_sys \<Rightarrow> SdkStatus \<Rightarrow> 'x dstate \<Rightarrow> error option \<times> 'x dstate" where
  "RunDeploy sys sdk s =
     (let deployFile = Dir sdk @ ''deploy.yaml'' in
      case LoadSDKInit sys deployFile (host s) of
        Inl err \<Rightarrow> (Some err, s)
      | Inr deployPlan \<Rightarrow>
          (let data = Map.empty in
           runSteps sys sdk data (Steps (Spec deployPlan)) (Fprintf (banner sdk) s)))"

section \<open>The process runner and the pollers of the end-to-end harness\<close>

record runOpts =
  NoNamespace :: bool
  AllowError :: bool
  StderrWriter :: "stream option"
  StdoutWriter :: "stream option"
  StdinReader :: "stream option"
  CancelCh :: "nat option"
  Redact :: bool

text \<open>The zero value \<^verbatim>\<open>runOpts{}\<close>.\<close>

definition runOpts0 :: runOpts where
  "runOpts0 =
     \<lparr>NoNamespace = False, AllowError = False, StderrWriter = None, StdoutWriter = None,
      StdinReader = None, CancelCh = None, Redact = False\<rparr>"

definition MaxRetries :: int where
  "MaxRetries = 10"

text \<open>\<^verbatim>\<open>5 * time.Second\<close>, in nanoseconds.\<close>

definition RetrySleepDuration :: int where
  "RetrySleepDuration = 5 * 1000000000"

definition Seconds :: "int \<Rightarrow> int" where
  "Seconds d = d div 1000000000"

fun nat_dec :: "nat \<Rightarrow> string" where
  "nat_dec n =
     (if n < 10 then [''0123456789'' ! n] else nat_dec (n div 10) @ [''0123456789'' ! (n mod 10)])"

definition Itoa :: "int \<Rightarrow> string" where
  "Itoa i = (if i < 0 then ''-'' @ nat_dec (nat (- i)) else nat_dec (nat i))"

text \<open>A call either comes back with its value or ends the whole test process.\<close>

datatype 'a outcome = Return 'a | Exit string

text \<open>What the harness does to the outside, in order: each \<^verbatim>\<open>kubectl\<close> invocation with
  its arguments, options and what came back, and each \<^verbatim>\<open>time.Sleep\<close>.\<close>

datatype event =
  EvKubectl "string list" runOpts "(string \<times> error option) outcome"
| EvSleep int

text \<open>What a finished child process leaves behind: the bytes it wrote to its standard
  output and standard error, and the error of \<^verbatim>\<open>cmd.Run\<close> (nil for exit code zero).\<close>

record proc =
  stdout_text :: string
  stderr_text :: string
  run_err :: "error option"

text \<open>What the harness calls outside this file: the child process (started with the
  command and the cancellation channel), the \<^verbatim>\<open>kubectl\<close> wrapper, the debug log, and
  the passing of time.\<close>

record 'w e2e_sys =
  exec_Run :: "Cmd \<Rightarrow> nat option \<Rightarrow> 'w \<Rightarrow> proc \<times> 'w"
  kubectl_RunWithOpts :: "string list \<Rightarrow> runOpts \<Rightarrow> 'w \<Rightarrow> (string \<times> error option) outcome \<times> 'w"
  Debugf :: "string \<Rightarrow> 'w \<Rightarrow> 'w"
  Sleep :: "int \<Rightarrow> 'w \<Rightarrow> 'w"

record 'w estate =
  events :: "event list"
  cluster :: 'w

definition logger_Debugf :: "'w e2e_sys \<Rightarrow> string \<Rightarrow> 'w estate \<Rightarrow> 'w estate" where
  "logger_Debugf sys msg s = s\<lparr>cluster := Debugf sys msg (cluster s)\<rparr>"

text \<open>Modelled from the spec: \<^verbatim>\<open>Logger.Fatalf\<close> is not among the source files. The
  specification says of the process runner that a failure the caller has not opted in to
  tolerate is "fatal to the overall program (not merely returned)" and "terminates the
  overall run"; so the call ends the process with its message.\<close>

definition logger_Fatalf :: "string \<Rightarrow> 'w estate \<Rightarrow> 'a outcome \<times> 'w estate" where
  "logger_Fatalf msg s = (Exit msg, s)"

definition time_Sleep :: "'w e2e_sys \<Rightarrow> int \<Rightarrow> 'w estate \<Rightarrow> 'w estate" where
  "time_Sleep sys d s = s\<lparr>events := events s @ [EvSleep d], cluster := Sleep sys d (cluster s)\<rparr>"

definition kubectl_call ::
  "'w e2e_sys \<Rightarrow> string list \<Rightarrow> runOpts \<Rightarrow> 'w estate \<Rightarrow> (string \<times> error option) outcome \<times> 'w estate"
where
  "kubectl_call sys args opts s =
     (case kubectl_RunWithOpts sys args opts (cluster s) of
        (r, w) \<Rightarrow> (r, s\<lparr>events := events s @ [EvKubectl args opts r], cluster := w\<rparr>))"

definition cmdCLIDesc :: "string \<Rightarrow> string list \<Rightarrow> string" where
  "cmdCLIDesc cli args = cli @ '' '' @ Join args '' ''"

definition runCLIWithOpts ::
  "'w e2e_sys \<Rightarrow> string \<Rightarrow> string list \<Rightarrow> runOpts \<Rightarrow> 'w estate \<Rightarrow> (string \<times> error option) outcome \<times> 'w estate"
where
  "runCLIWithOpts sys cli args opts s0 =
     (let s1 = logger_Debugf sys (''Running '' @ sq @ cmdCLIDesc cli args @ sq @ ''...'' @ nl) s0;
          cmd = (Command cli args)
                  \<lparr>Stderr := Some StderrBuffer,
                   Stdout := (case StdoutWriter opts of Some wr \<Rightarrow> Some wr | None \<Rightarrow> Some StdoutBuffer),
                   Stdin := StdinReader opts\<rparr>
      in case exec_Run sys cmd (CancelCh opts) (cluster s1) of
           (p, w) \<Rightarrow>
             (let s2 = s1\<lparr>cluster := w\<rparr>;
                  stdout = (if StdoutWriter opts = None then stdout_text p else []);
                  stderr = stderr_text p
              in case run_err p of
                   None \<Rightarrow> (Return (stdout, None), s2)
                 | Some e \<Rightarrow>
                     (let err = Error (''Execution error: stderr: '' @ sq @ stderr @ sq
                                        @ '' error: '' @ sq @ error_msg e @ sq)
                      in if \<not> AllowError opts then
                           logger_Fatalf (''Failed to successfully execute '' @ sq
                                          @ cmdCLIDesc cli args @ sq @ '': '' @ error_msg err) s2
                         else (Return (stdout, Some err), s2))))"

definition kubectlGetNamespace ::
  "'w e2e_sys \<Rightarrow> 'w estate \<Rightarrow> (string \<times> error option) outcome \<times> 'w estate"
where
  "kubectlGetNamespace sys s = kubectl_call sys [''get'', ''namespace''] runOpts0 s"

function checkNamespace_loop ::
  "'w e2e_sys \<Rightarrow> string \<Rightarrow> bool \<Rightarrow> int \<Rightarrow> int \<Rightarrow> 'w estate \<Rightarrow> bool outcome \<times> 'w estate"
where
  "checkNamespace_loop sys namespace created maxRetries retries s =
     (if retries < MaxRetries then
        (case kubectlGetNamespace sys s of
           (Exit m, s1) \<Rightarrow> (Exit m, s1)
         | (Return (output, err), s1) \<Rightarrow>
             if \<not> created \<and> \<not> Contains output namespace then (Return True, s1)
             else if created \<and> Contains output namespace then (Return True, s1)
             else
               (let retries1 = retries + 1;
                    s2 = logger_Debugf sys
                           (''Namespace is terminating, waiting '' @ Itoa (Seconds RetrySleepDuration)
                            @ ''s, and trying again: '' @ Itoa retries1 @ '' of '' @ Itoa maxRetries @ nl) s1;
                    s3 = time_Sleep sys RetrySleepDuration s2
                in checkNamespace_loop sys namespace created maxRetries retries1 s3))
      else (Return True, s))"
  by pat_completeness auto
termination
  by (relation "measure (\<lambda>(sys, namespace, created, maxRetries, retries, s). nat (MaxRetries - retries))")
     auto

definition checkNamespace ::
  "'w e2e_sys \<Rightarrow> string \<Rightarrow> bool \<Rightarrow> int \<Rightarrow> 'w estate \<Rightarrow> bool outcome \<times> 'w estate"
where
  "checkNamespace sys namespace created maxRetries s =
     checkNamespace_loop sys namespace created maxRetries 0 s"

definition kubectlCreateNamespace ::
  "'w e2e_sys \<Rightarrow> string \<Rightarrow> 'w estate \<Rightarrow> (string \<times> error option) outcome \<times> 'w estate"
where
  "kubectlCreateNamespace sys namespace s =
     kubectl_call sys [''create'', ''namespace'', namespace] (runOpts0\<lparr>AllowError := True\<rparr>) s"

function createNamespace_loop ::
  "'w e2e_sys \<Rightarrow> string \<Rightarrow> int \<Rightarrow> int \<Rightarrow> string \<Rightarrow> error option \<Rightarrow> 'w estate
     \<Rightarrow> (string \<times> error option) outcome \<times> 'w estate"
where
  "createNamespace_loop sys namespace maxRetries retries out err s =
     (if retries < maxRetries then
        (case kubectlCreateNamespace sys namespace s of
           (Exit m, s1) \<Rightarrow> (Exit m, s1)
         | (Return (out1, None), s1) \<Rightarrow> (Return (out1, None), s1)
         | (Return (out1, Some e), s1) \<Rightarrow>
             (let retries1 = retries + 1;
                  s2 = logger_Debugf sys
                         (''Could not create namespace with error '' @ error_msg e @ '', waiting ''
                          @ Itoa (Seconds RetrySleepDuration) @ ''s, and trying again: ''
                          @ Itoa retries1 @ '' of '' @ Itoa maxRetries @ nl) s1;
                  s3 = time_Sleep sys RetrySleepDuration s2
              in createNamespace_loop sys namespace maxRetries retries1 out1 (Some e) s3))
      else (Return (out, err), s))"
  by pat_completeness auto
termination
  by (relation "measure (\<lambda>(sys, namespace, maxRetries, retries, out, err, s). nat (maxRetries - retries))")
     auto

definition createNamespace ::
  "'w e2e_sys \<Rightarrow> string \<Rightarrow> int \<Rightarrow> 'w estate \<Rightarrow> (string \<times> error option) outcome \<times> 'w estate"
where
  "createNamespace sys namespace maxRetries s =
     createNamespace_loop sys namespace maxRetries 0 [] None s"

section \<open>Notions used in the statements\<close>

text \<open>One state of the file system extends another: what exists stays what it is, and the
  working directory is the same.\<close>

definition vfs_le :: "vfs \<Rightarrow> vfs \<Rightarrow> bool" where
  "vfs_le v v' = (nodes v \<subseteq>\<^sub>m nodes v' \<and> cwd v = cwd v')"

text \<open>The directory a \<^verbatim>\<open>Mkdir\<close> step asks for: the text \<^verbatim>\<open>InterpretString\<close> returns for
  its path template (whatever its error).\<close>

definition dirOf :: "('x, 'v) deploy_sys \<Rightarrow> (string \<rightharpoonup> 'v) \<Rightarrow> Step \<Rightarrow> string" where
  "dirOf sys data st = fst (InterpretString sys (Mkdir st) data)"

text \<open>Follows the specification's words, not the code: "split the command line on
  whitespace". The tokens are the maximal runs of characters that are not white space
  (space, tab, line feed, vertical tab, form feed, carriage return), as
  \<^verbatim>\<open>strings.Fields\<close> would give them. It is compared below with what the code does,
  \<^verbatim>\<open>strings.Split(step.Exec, " ")\<close>.\<close>

definition isSpace :: "char \<Rightarrow> bool" where
  "isSpace c = (c \<in> {CHR 0x09, CHR 0x0A, CHR 0x0B, CHR 0x0C, CHR 0x0D, CHR 0x20})"

fun tokensFrom :: "string \<Rightarrow> string \<Rightarrow> string list" where
  "tokensFrom cur [] = (if cur = [] then [] else [cur])"
| "tokensFrom cur (c # cs) =
     (if isSpace c then (if cur = [] then tokensFrom [] cs else cur # tokensFrom [] cs)
      else tokensFrom (cur @ [c]) cs)"

definition whitespaceTokens :: "string \<Rightarrow> string list" where
  "whitespaceTokens s = tokensFrom [] s"

text \<open>The condition a poll waits for, as the two tests in the loop of \<^verbatim>\<open>checkNamespace\<close>
  state it: the name is absent from the listing when waiting for a deletion, present when
  waiting for a creation.\<close>

definition conditionHolds :: "bool \<Rightarrow> string \<Rightarrow> string \<Rightarrow> bool" where
  "conditionHolds created output namespace =
     ((\<not> created \<and> \<not> Contains output namespace) \<or> (created \<and> Contains output namespace))"

text \<open>The record of one probe and of one create call in the sequence of events, and the
  events of a run of attempts each followed by the sleep of the fixed interval.\<close>

definition probeEv :: "(string \<times> error option) outcome \<Rightarrow> event" where
  "probeEv r = EvKubectl [''get'', ''namespace''] runOpts0 r"

definition createEv :: "string \<Rightarrow> (string \<times> error option) outcome \<Rightarrow> event" where
  "createEv namespace r = EvKubectl [''create'', ''namespace'', namespace] (runOpts0\<lparr>AllowError := True\<rparr>) r"

definition retry_trace :: "event list \<Rightarrow> event list" where
  "retry_trace calls = concat (map (\<lambda>c. [c, EvSleep RetrySleepDuration]) calls)"

fun isKubectl :: "event \<Rightarrow> bool" where
  "isKubectl (EvKubectl args opts r) = True"
| "isKubectl (EvSleep d) = False"

text \<open>The command \<^verbatim>\<open>runCLIWithOpts\<close> builds, and its call of \<^verbatim>\<open>cmd.Run()\<close>: the child
  process started on the state the debug line has left.\<close>

definition cliCmd :: "string \<Rightarrow> string list \<Rightarrow> runOpts \<Rightarrow> Cmd" where
  "cliCmd cli args opts =
     \<lparr>Path = cli, Args = cli # args, Env = None, Stdin = StdinReader opts,
      Stdout = (case StdoutWriter opts of Some wr \<Rightarrow> Some wr | None \<Rightarrow> Some StdoutBuffer),
      Stderr = Some StderrBuffer\<rparr>"

definition cmdRun :: "'w e2e_sys \<Rightarrow> string \<Rightarrow> string list \<Rightarrow> runOpts \<Rightarrow> 'w estate \<Rightarrow> proc \<times> 'w" where
  "cmdRun sys cli args opts s =
     exec_Run sys (cliCmd cli args opts) (CancelCh opts)
       (Debugf sys (''Running '' @ sq @ cmdCLIDesc cli args @ sq @ ''...'' @ nl) (cluster s))"

section \<open>Concrete machines, plans and scripts\<close>

text \<open>A small machine for running plans: the plan is read from the machine's own state,
  a template fails when it refers to a key (the context of \<^verbatim>\<open>RunDeploy\<close> is empty, so
  every reference is unresolved), only \<^verbatim>\<open>echo\<close> is on the search path, and every
  command that is run is recorded.\<close>

record demo_ext =
  plan :: SDKInit
  ran :: "Cmd list"

definition demo_sys :: "(demo_ext, string) deploy_sys" where
  "demo_sys =
     \<lparr>LoadSDKInit = (\<lambda>file h. Inr (plan (ext h))),
      InterpretString = (\<lambda>t data. if Contains t ''{{'' then ([], Some (Error ''template: missing key'')) else (t, None)),
      RenderTemplate = (\<lambda>src dst data h. (None, h)),
      LookPath = (\<lambda>file h. if file = ''echo'' then (''/bin/echo'', None)
                             else ([], Some (Error (''exec: '' @ file @ '': executable file not found in $PATH'')))),
      Environ = (\<lambda>h. [''HOME=/root'']),
      Run = (\<lambda>c h. (None, h\<lparr>ext := (ext h)\<lparr>ran := ran (ext h) @ [c]\<rparr>\<rparr>))\<rparr>"

definition demo_state :: "Step list \<Rightarrow> demo_ext dstate" where
  "demo_state steps =
     \<lparr>written = [],
      host = \<lparr>fsys = \<lparr>nodes = Map.empty, cwd = []\<rparr>,
              ext = \<lparr>plan = \<lparr>Spec = \<lparr>Steps = steps\<rparr>\<rparr>, ran = []\<rparr>\<rparr>\<rparr>"

definition demo_sdk :: SdkStatus where
  "demo_sdk = \<lparr>Dir = ''/sdk/'', SdkName = ''go''\<rparr>"

definition sdkInit :: "Step list \<Rightarrow> SDKInit" where
  "sdkInit steps = \<lparr>Spec = \<lparr>Steps = steps\<rparr>\<rparr>"

definition mkdirStep :: "string \<Rightarrow> string \<Rightarrow> Step" where
  "mkdirStep n p = \<lparr>Name = n, Mkdir = p, Exec = [], File = \<lparr>Source = [], Destination = []\<rparr>\<rparr>"

definition execStep :: "string \<Rightarrow> string \<Rightarrow> Step" where
  "execStep n c = \<lparr>Name = n, Mkdir = [], Exec = c, File = \<lparr>Source = [], Destination = []\<rparr>\<rparr>"

definition fileStep :: "string \<Rightarrow> string \<Rightarrow> string \<Rightarrow> Step" where
  "fileStep n src dst = \<lparr>Name = n, Mkdir = [], Exec = [], File = \<lparr>Source = src, Destination = dst\<rparr>\<rparr>"

definition noStep :: "string \<Rightarrow> Step" where
  "noStep n = \<lparr>Name = n, Mkdir = [], Exec = [], File = \<lparr>Source = [], Destination = ''out.txt''\<rparr>\<rparr>"

definition bothStep :: Step where
  "bothStep = \<lparr>Name = ''both'', Mkdir = ''d'', Exec = ''echo hi'',
               File = \<lparr>Source = ''tmpl'', Destination = ''out.txt''\<rparr>\<rparr>"

definition plan_abort :: "Step list" where
  "plan_abort = [mkdirStep ''one'' ''a'', execStep ''two'' ''nope x'', mkdirStep ''three'' ''b'']"

definition plan_dirs :: "Step list" where
  "plan_dirs = [mkdirStep ''one'' ''a/b/'', mkdirStep ''two'' ''a/../c'', mkdirStep ''three'' ''a'']"

definition plan_invalid :: "Step list" where
  "plan_invalid = [mkdirStep ''one'' ''a'', noStep ''two'', mkdirStep ''three'' ''b'']"

text \<open>Two control planes for the harness: one that answers every \<^verbatim>\<open>kubectl\<close> call with
  the same reply and every child process with the same result, and one that answers
  \<^verbatim>\<open>kubectl\<close> calls from a script and ends the process when the script has run out.\<close>

definition const_e2e :: "string \<times> error option \<Rightarrow> proc \<Rightarrow> nat e2e_sys" where
  "const_e2e reply p =
     \<lparr>exec_Run = (\<lambda>c ch w. (p, Suc w)),
      kubectl_RunWithOpts = (\<lambda>args opts w. (Return reply, Suc w)),
      Debugf = (\<lambda>msg w. w),
      Sleep = (\<lambda>d w. w)\<rparr>"

definition scripted_e2e :: "(string \<times> error option) list e2e_sys" where
  "scripted_e2e =
     \<lparr>exec_Run = (\<lambda>c ch w. (\<lparr>stdout_text = [], stderr_text = [], run_err = None\<rparr>, w)),
      kubectl_RunWithOpts =
        (\<lambda>args opts w. case w of [] \<Rightarrow> (Exit ''kubectl: command not found'', []) | r # rs \<Rightarrow> (Return r, rs)),
      Debugf = (\<lambda>msg w. w),
      Sleep = (\<lambda>d w. w)\<rparr>"

definition proc_ok :: proc where
  "proc_ok = \<lparr>stdout_text = ''NAME STATUS'', stderr_text = [], run_err = None\<rparr>"

definition proc_failed :: proc where
  "proc_failed = \<lparr>stdout_text = [], stderr_text = ''Error from server (NotFound)'',
                  run_err = Some (Error ''exit status 1'')\<rparr>"

definition estate0 :: "'w \<Rightarrow> 'w estate" where
  "estate0 w = \<lparr>events = [], cluster = w\<rparr>"

definition create_script :: "(string \<times> error option) list" where
  "create_script = [([], Some (Error ''e1'')), (''partial'', Some (Error ''e2'')), (''namespace/ns1 created'', None)]"

declare MkdirAll.simps [simp del]

declare checkNamespace_loop.simps [simp del]

declare createNamespace_loop.simps [simp del]

section \<open>Strings\<close>

text \<open>\<^verbatim>\<open>strings.Split\<close> never returns an empty slice, so \<^verbatim>\<open>parts[0]\<close> cannot panic; joining
  the tokens with the separator gives the text back, and no token holds the separator.\<close>

lemma splitFrom_nonempty: "splitFrom sep cur s \<noteq> []"
  by (induction s arbitrary: cur) auto

lemma Split_nonempty: "Split s sep \<noteq> []"
  by (simp add: Split_def splitFrom_nonempty)

lemma Join_Cons: "ys \<noteq> [] \<Longrightarrow> Join (x # ys) sep = x @ sep @ Join ys sep"
  by (cases ys) auto

lemma Join_splitFrom: "Join (splitFrom sep cur s) [sep] = cur @ s"
  by (induction s arbitrary: cur) (auto simp: Join_Cons splitFrom_nonempty)

lemma Join_Split: "Join (Split s sep) [sep] = s"
  by (simp add: Split_def Join_splitFrom)

lemma splitFrom_no_sep: "sep \<notin> set cur \<Longrightarrow> t \<in> set (splitFrom sep cur s) \<Longrightarrow> sep \<notin> set t"
proof (induction s arbitrary: cur)
  case Nil
  then show ?case by simp
next
  case (Cons c cs)
  show ?case
  proof (cases "c = sep")
    case True
    with Cons.prems have "t = cur \<or> t \<in> set (splitFrom sep [] cs)"
      by simp
    then show ?thesis
      using Cons.prems(1) Cons.IH [of "[]"] by auto
  next
    case False
    with Cons.prems have "t \<in> set (splitFrom sep (cur @ [c]) cs)"
      by simp
    moreover from False Cons.prems(1) have "sep \<notin> set (cur @ [c])"
      by auto
    ultimately show ?thesis
      using Cons.IH [of "cur @ [c]"] by blast
  qed
qed

lemma Split_no_sep: "t \<in> set (Split s sep) \<Longrightarrow> sep \<notin> set t"
  unfolding Split_def using splitFrom_no_sep [of sep "[]" t s] by simp

lemma Contains_prefix: "Contains (ys @ zs) ys"
proof (cases "ys @ zs")
  case Nil
  then show ?thesis by simp
next
  case (Cons a list)
  have "prefix ys (ys @ zs)"
    by simp
  with Cons show ?thesis
    by simp
qed

lemma Contains_mid: "Contains (xs @ ys @ zs) ys"
  by (induction xs) (auto simp: Contains_prefix)

section \<open>\<^verbatim>\<open>os.MkdirAll\<close> on the file system\<close>

text \<open>Creating directories only adds to the file system; a path that resolved keeps
  resolving to the same place; after a successful \<^verbatim>\<open>MkdirAll\<close> the path is a directory;
  and on a path that is a directory \<^verbatim>\<open>MkdirAll\<close> does nothing and returns nil.\<close>

lemma vfs_le_refl: "vfs_le v v"
  by (simp add: vfs_le_def)

lemma vfs_le_trans: "vfs_le a b \<Longrightarrow> vfs_le b c \<Longrightarrow> vfs_le a c"
  unfolding vfs_le_def by (auto intro: map_le_trans)

lemma node_at_mono: "vfs_le v v' \<Longrightarrow> node_at v k = Some n \<Longrightarrow> node_at v' k = Some n"
  unfolding vfs_le_def node_at_def map_le_def by (auto split: if_splits simp: dom_def)

lemma walk_mono: "vfs_le v v' \<Longrightarrow> walk v cur cs = Inr k \<Longrightarrow> walk v' cur cs = Inr k"
proof (induction cs arbitrary: cur)
  case Nil
  then show ?case by simp
next
  case (Cons c cs)
  from Cons.prems(2) have d: "node_at v cur = Some DirNode" and w: "walk v (enter cur c) cs = Inr k"
    by (auto split: option.splits node.splits)
  from node_at_mono [OF Cons.prems(1) d] Cons.IH [OF Cons.prems(1) w] show ?case
    by simp
qed

lemma lookup_path_mono: "vfs_le v v' \<Longrightarrow> lookup_path v p = Inr k \<Longrightarrow> lookup_path v' p = Inr k"
proof -
  assume le: "vfs_le v v'" and l: "lookup_path v p = Inr k"
  from le have c: "cwd v' = cwd v"
    by (simp add: vfs_le_def)
  from l have ne: "p \<noteq> []" and w: "walk v (path_start v p) (components p) = Inr k"
    by (auto simp: lookup_path_def split: if_splits)
  from c have "path_start v' p = path_start v p"
    by (simp add: path_start_def)
  with walk_mono [OF le w] ne show ?thesis
    by (simp add: lookup_path_def)
qed

lemma Stat_mono: "vfs_le v v' \<Longrightarrow> Stat v p = Inr n \<Longrightarrow> Stat v' p = Inr n"
proof -
  assume le: "vfs_le v v'" and st: "Stat v p = Inr n"
  from st obtain k where k: "lookup_path v p = Inr k" and n: "node_at v k = Some n"
    by (auto simp: Stat_def split: sum.splits option.splits)
  from lookup_path_mono [OF le k] node_at_mono [OF le n] show ?thesis
    by (simp add: Stat_def)
qed

lemma os_Mkdir_le: "os_Mkdir v p = Inr v' \<Longrightarrow> vfs_le v v'"
  unfolding os_Mkdir_def vfs_le_def node_at_def map_le_def
  by (auto split: sum.splits option.splits if_splits)

lemma os_Mkdir_Stat: "os_Mkdir v p = Inr v' \<Longrightarrow> Stat v' p = Inr DirNode"
proof -
  assume m: "os_Mkdir v p = Inr v'"
  then obtain k where k: "lookup_path v p = Inr k" and v': "v' = v\<lparr>nodes := (nodes v)(k \<mapsto> DirNode)\<rparr>"
    unfolding os_Mkdir_def by (auto split: sum.splits option.splits)
  from lookup_path_mono [OF os_Mkdir_le [OF m] k] have "lookup_path v' p = Inr k" .
  moreover have "node_at v' k = Some DirNode"
    by (simp add: v' node_at_def)
  ultimately show ?thesis
    by (simp add: Stat_def)
qed

lemma MkdirAll_le: "MkdirAll p v = (r, v') \<Longrightarrow> vfs_le v v'"
proof (induction p v arbitrary: r v' rule: MkdirAll.induct)
  case (1 path v)
  show ?case
  proof (cases "Stat v path")
    case (Inr n)
    with "1.prems" show ?thesis
      by (cases n) (auto simp: MkdirAll.simps [of path v] vfs_le_refl)
  next
    case (Inl e0)
    obtain pe v1 where par: "(if parentOf path \<noteq> [] then MkdirAll (parentOf path) v else (None, v)) = (pe, v1)"
      by (cases "if parentOf path \<noteq> [] then MkdirAll (parentOf path) v else (None, v)") auto
    have le1: "vfs_le v v1"
    proof (cases "parentOf path \<noteq> []")
      case True
      with par have "MkdirAll (parentOf path) v = (pe, v1)" by simp
      from "1.IH" [OF Inl True this] show ?thesis .
    next
      case False
      with par show ?thesis by (simp add: vfs_le_refl)
    qed
    from "1.prems" Inl par have "v' = v1 \<or> os_Mkdir v1 path = Inr v'"
      by (auto simp: MkdirAll.simps [of path v] split: option.splits sum.splits node.splits)
    then show ?thesis
      using le1 os_Mkdir_le vfs_le_trans by blast
  qed
qed

lemma MkdirAll_ok_Stat: "MkdirAll p v = (None, v') \<Longrightarrow> Stat v' p = Inr DirNode"
proof -
  assume a: "MkdirAll p v = (None, v')"
  show ?thesis
  proof (cases "Stat v p")
    case (Inr n)
    with a show ?thesis
      by (cases n) (auto simp: MkdirAll.simps [of p v])
  next
    case (Inl e0)
    obtain pe v1 where par: "(if parentOf p \<noteq> [] then MkdirAll (parentOf p) v else (None, v)) = (pe, v1)"
      by (cases "if parentOf p \<noteq> [] then MkdirAll (parentOf p) v else (None, v)") auto
    from a Inl par have "os_Mkdir v1 p = Inr v' \<or> (v' = v1 \<and> Lstat v1 p = Inr DirNode)"
      by (auto simp: MkdirAll.simps [of p v] split: option.splits sum.splits node.splits)
    then show ?thesis
      by (auto simp: Lstat_def dest: os_Mkdir_Stat)
  qed
qed

lemma MkdirAll_existing: "Stat v p = Inr DirNode \<Longrightarrow> MkdirAll p v = (None, v)"
  by (simp add: MkdirAll.simps [of p v])

section \<open>Properties of \<^verbatim>\<open>RunDeploy\<close>\<close>

subsection \<open>The loop and its steps\<close>

lemma written_Fprintf: "written (Fprintf t s) = written s @ t"
  by (simp add: Fprintf_def)

lemma host_Fprintf: "host (Fprintf t s) = host s"
  by (simp add: Fprintf_def)

lemma written_on_host: "written (snd (on_host f s)) = written s"
  by (simp add: on_host_def split: prod.splits)

lemma written_os_MkdirAll: "written (snd (os_MkdirAll p s)) = written s"
  by (simp add: os_MkdirAll_def split: prod.splits)

lemma on_host_host: "on_host f s = (r, s1) \<Longrightarrow> f (host s) = (r, host s1)"
  by (auto simp: on_host_def split: prod.splits)

lemma runStep_Mkdir:
  "Mkdir st \<noteq> [] \<Longrightarrow>
   runStep sys sdk data st s = os_MkdirAll (dirOf sys data st) (Fprintf (stepMarker st) s)"
  by (auto simp: runStep_def dirOf_def Let_def split: prod.splits option.splits)

lemma runStep_no_payload:
  "Mkdir st = [] \<Longrightarrow> Exec st = [] \<Longrightarrow> Source (File st) = [] \<Longrightarrow>
   runStep sys sdk data st s = (Some (invalidConfig st), Fprintf (stepMarker st) s)"
  by (simp add: runStep_def)

lemma runStep_File_template_error:
  "Mkdir st = [] \<Longrightarrow> Exec st = [] \<Longrightarrow> Source (File st) \<noteq> [] \<Longrightarrow>
   InterpretString sys (Destination (File st)) data = (outFile, Some e) \<Longrightarrow>
   runStep sys sdk data st s = (Some e, Fprintf (stepMarker st) s)"
  by (simp add: runStep_def)

lemma written_runStep: "written (snd (runStep sys sdk data st s)) = written s @ stepMarker st"
proof -
  let ?s = "Fprintf (stepMarker st) s"
  have w: "written ?s = written s @ stepMarker st"
    by (simp add: written_Fprintf)
  consider (m) "Mkdir st \<noteq> []" | (e) "Mkdir st = []" "Exec st \<noteq> []"
    | (f) "Mkdir st = []" "Exec st = []" "Source (File st) \<noteq> []"
    | (n) "Mkdir st = []" "Exec st = []" "Source (File st) = []"
    by blast
  then show ?thesis
  proof cases
    case m
    then show ?thesis
      by (simp add: runStep_Mkdir written_os_MkdirAll w)
  next
    case e
    then show ?thesis
      using w written_on_host [of _ ?s]
      by (auto simp: runStep_def Let_def split: list.splits prod.splits option.splits)
  next
    case f
    then show ?thesis
      using w written_on_host [of _ ?s]
      by (auto simp: runStep_def Let_def split: prod.splits option.splits)
  next
    case n
    then show ?thesis
      by (simp add: runStep_no_payload w)
  qed
qed

lemma runSteps_append:
  "runSteps sys sdk data (xs @ ys) s =
     (case runSteps sys sdk data xs s of
        (Some err, s1) \<Rightarrow> (Some err, s1)
      | (None, s1) \<Rightarrow> runSteps sys sdk data ys s1)"
  by (induction xs arbitrary: s) (auto split: prod.splits option.splits)

lemma runSteps_stop:
  "runSteps sys sdk data pre s = (None, s1) \<Longrightarrow> runStep sys sdk data st s1 = (Some e, s2) \<Longrightarrow>
   runSteps sys sdk data (pre @ st # post) s = (Some e, s2)"
  by (simp add: runSteps_append)

lemma written_runSteps:
  "runSteps sys sdk data steps s = (None, s1) \<Longrightarrow>
   written s1 = written s @ concat (map stepMarker steps)"
proof (induction steps arbitrary: s)
  case Nil
  then show ?case by simp
next
  case (Cons st steps)
  from Cons.prems obtain s0 where a: "runStep sys sdk data st s = (None, s0)"
    and b: "runSteps sys sdk data steps s0 = (None, s1)"
    by (auto split: prod.splits option.splits)
  from written_runStep [of sys sdk data st s] a have "written s0 = written s @ stepMarker st"
    by simp
  with Cons.IH [OF b] show ?case
    by simp
qed

lemma RunDeploy_loaded:
  "LoadSDKInit sys (Dir sdk @ ''deploy.yaml'') (host s) = Inr p \<Longrightarrow>
   RunDeploy sys sdk s = runSteps sys sdk Map.empty (Steps (Spec p)) (Fprintf (banner sdk) s)"
  by (simp add: RunDeploy_def)

lemma os_MkdirAll_None:
  "os_MkdirAll d s = (None, s1) \<Longrightarrow>
   MkdirAll d (fsys (host s)) = (None, fsys (host s1)) \<and> ext (host s1) = ext (host s) \<and> written s1 = written s"
  by (auto simp: os_MkdirAll_def split: prod.splits)

lemma os_MkdirAll_existing:
  "Stat (fsys (host s)) d = Inr DirNode \<Longrightarrow> os_MkdirAll d s = (None, s)"
  by (simp add: os_MkdirAll_def MkdirAll_existing)

lemma runSteps_Mkdir_made:
  "\<forall>st\<in>set steps. Mkdir st \<noteq> [] \<Longrightarrow> runSteps sys sdk data steps s = (None, s1) \<Longrightarrow>
   vfs_le (fsys (host s)) (fsys (host s1)) \<and>
   (\<forall>st\<in>set steps. Stat (fsys (host s1)) (dirOf sys data st) = Inr DirNode)"
proof (induction steps arbitrary: s)
  case Nil
  then show ?case by (simp add: vfs_le_refl)
next
  case (Cons st steps)
  from Cons.prems(2) obtain s0 where a: "runStep sys sdk data st s = (None, s0)"
    and b: "runSteps sys sdk data steps s0 = (None, s1)"
    by (auto split: prod.splits option.splits)
  from Cons.prems(1) have m: "Mkdir st \<noteq> []" and ms: "\<forall>st\<in>set steps. Mkdir st \<noteq> []"
    by simp_all
  from a m have "os_MkdirAll (dirOf sys data st) (Fprintf (stepMarker st) s) = (None, s0)"
    by (simp add: runStep_Mkdir)
  from os_MkdirAll_None [OF this]
  have mk: "MkdirAll (dirOf sys data st) (fsys (host s)) = (None, fsys (host s0))"
    by (simp add: host_Fprintf)
  from Cons.IH [OF ms b] have le: "vfs_le (fsys (host s0)) (fsys (host s1))"
    and rest: "\<forall>st\<in>set steps. Stat (fsys (host s1)) (dirOf sys data st) = Inr DirNode"
    by simp_all
  from MkdirAll_le [OF mk] le have "vfs_le (fsys (host s)) (fsys (host s1))"
    by (rule vfs_le_trans)
  moreover from Stat_mono [OF le MkdirAll_ok_Stat [OF mk]]
  have "Stat (fsys (host s1)) (dirOf sys data st) = Inr DirNode" .
  ultimately show ?case
    using rest by simp
qed

lemma runSteps_Mkdir_again:
  "\<forall>st\<in>set steps. Mkdir st \<noteq> [] \<and> Stat (fsys (host s)) (dirOf sys data st) = Inr DirNode \<Longrightarrow>
   runSteps sys sdk data steps s = (None, s\<lparr>written := written s @ concat (map stepMarker steps)\<rparr>)"
proof (induction steps arbitrary: s)
  case Nil
  then show ?case by simp
next
  case (Cons st steps)
  let ?s0 = "Fprintf (stepMarker st) s"
  from Cons.prems have m: "Mkdir st \<noteq> []" and d: "Stat (fsys (host ?s0)) (dirOf sys data st) = Inr DirNode"
    by (simp_all add: host_Fprintf)
  from m os_MkdirAll_existing [OF d] have a: "runStep sys sdk data st s = (None, ?s0)"
    by (simp add: runStep_Mkdir)
  from Cons.prems have "\<forall>st\<in>set steps. Mkdir st \<noteq> [] \<and> Stat (fsys (host ?s0)) (dirOf sys data st) = Inr DirNode"
    by (simp add: host_Fprintf)
  from Cons.IH [OF this] a show ?case
    by (simp add: Fprintf_def)
qed

subsection \<open>Template errors in a \<^verbatim>\<open>Mkdir\<close> step\<close>

text \<open>Claim C1: a template resolution error in a \<^verbatim>\<open>Mkdir\<close> or \<^verbatim>\<open>FileTemplate\<close> step aborts
  the step and the plan, and \<^verbatim>\<open>RunDeploy\<close> returns the template error; in particular for
  a \<^verbatim>\<open>Mkdir\<close> step whose path template fails to render.

  The \<^verbatim>\<open>FileTemplate\<close> branch does so (\<open>runStep_File_template_error\<close>). The \<^verbatim>\<open>Mkdir\<close>
  branch assigns the error of \<^verbatim>\<open>InterpretString\<close> to \<^verbatim>\<open>err\<close> and overwrites it with the
  result of \<^verbatim>\<open>os.MkdirAll\<close> before it is looked at, so the step depends on the returned
  text only (\<open>runStep_Mkdir\<close>). The theorem runs two plans on the concrete machine: with the
  failing template in a \<^verbatim>\<open>Mkdir\<close> step the caller gets the error of \<^verbatim>\<open>MkdirAll\<close> on the
  empty path, not the template error; with the same template as the destination of a
  \<^verbatim>\<open>FileTemplate\<close> step the caller gets the template error.\<close>

theorem Mkdir_template_error_dropped:
  "InterpretString demo_sys ''{{.name}}'' Map.empty = ([], Some (Error ''template: missing key''))
   \<and> fst (RunDeploy demo_sys demo_sdk (demo_state [mkdirStep ''one'' ''{{.name}}'', mkdirStep ''two'' ''b'']))
       = Some (Error ''mkdir : no such file or directory'')
   \<and> fst (RunDeploy demo_sys demo_sdk (demo_state [fileStep ''one'' ''tmpl'' ''{{.name}}'', mkdirStep ''two'' ''b'']))
       = Some (Error ''template: missing key'')"
  by code_simp

subsection \<open>Declaration order and fail-fast execution\<close>

text \<open>Claim C3: for every plan the steps are executed strictly in declaration order, and
  execution is fail-fast: if step \<open>k\<close> returns an error, that error is returned to the
  caller and nothing of the later steps is executed; earlier steps are not rolled back.

  The plan is \<open>pre @ st # post\<close>; the steps of \<open>pre\<close> have run in order from the state
  after the banner and have left the state \<open>s1\<close>, in which \<open>st\<close> fails with \<open>e\<close> and leaves
  \<open>s2\<close>. Then \<^verbatim>\<open>RunDeploy\<close> returns \<open>e\<close> and the final state is \<open>s2\<close>, whatever \<open>post\<close> is: it
  holds the effects of the steps up to \<open>st\<close> and of no later one. The text written to the
  writer is the banner followed by the progress lines of the steps up to \<open>st\<close>, in
  declaration order.\<close>

theorem RunDeploy_fail_fast:
  assumes "LoadSDKInit sys (Dir sdk @ ''deploy.yaml'') (host s) = Inr p"
    and "Steps (Spec p) = pre @ st # post"
    and "runSteps sys sdk Map.empty pre (Fprintf (banner sdk) s) = (None, s1)"
    and "runStep sys sdk Map.empty st s1 = (Some e, s2)"
  shows "RunDeploy sys sdk s = (Some e, s2) \<and>
         written s2 = written s @ banner sdk @ concat (map stepMarker (pre @ [st]))"
proof
  from assms show "RunDeploy sys sdk s = (Some e, s2)"
    by (simp add: RunDeploy_loaded runSteps_stop)
  from written_runSteps [OF assms(3)] written_runStep [of sys sdk Map.empty st s1] assms(4)
  show "written s2 = written s @ banner sdk @ concat (map stepMarker (pre @ [st]))"
    by (simp add: written_Fprintf)
qed

theorem RunDeploy_fail_fast_witness:
  "fst (RunDeploy demo_sys demo_sdk (demo_state plan_abort))
     = Some (Error ''exec: nope: executable file not found in $PATH'')
   \<and> written (snd (RunDeploy demo_sys demo_sdk (demo_state plan_abort)))
     = banner demo_sdk @ stepMarker (mkdirStep ''one'' ''a'') @ stepMarker (execStep ''two'' ''nope x'')"
proof -
  let ?s = "demo_state plan_abort"
  let ?pre = "[mkdirStep ''one'' ''a'']"
  let ?r1 = "runSteps demo_sys demo_sdk Map.empty ?pre (Fprintf (banner demo_sdk) ?s)"
  let ?r2 = "runStep demo_sys demo_sdk Map.empty (execStep ''two'' ''nope x'') (snd ?r1)"
  have h1: "LoadSDKInit demo_sys (Dir demo_sdk @ ''deploy.yaml'') (host ?s) = Inr (sdkInit plan_abort)"
    by (simp add: demo_sys_def demo_state_def sdkInit_def)
  have h2: "Steps (Spec (sdkInit plan_abort)) = ?pre @ execStep ''two'' ''nope x'' # [mkdirStep ''three'' ''b'']"
    by (simp add: sdkInit_def plan_abort_def)
  have "fst ?r1 = None"
    by code_simp
  then have h3: "?r1 = (None, snd ?r1)"
    by (simp add: prod_eq_iff)
  have "fst ?r2 = Some (Error ''exec: nope: executable file not found in $PATH'')"
    by code_simp
  then have h4: "?r2 = (Some (Error ''exec: nope: executable file not found in $PATH''), snd ?r2)"
    by (simp add: prod_eq_iff)
  have w: "written ?s = []"
    by (simp add: demo_state_def)
  from RunDeploy_fail_fast [OF h1 h2 h3 h4] w show ?thesis
    by simp
qed

subsection \<open>The \<^verbatim>\<open>Exec\<close> step\<close>

text \<open>Claim C6, as the code has it: for every \<^verbatim>\<open>Exec\<close> step the command line is cut at
  every single space character (the tokens joined by single spaces are the command line
  again, and no token holds a space); the first token is resolved against the search
  path, and when that fails the plan is aborted with the lookup error; otherwise the
  process is run with the resolved path, all the remaining tokens as its arguments, the
  parent's environment, and the parent's standard input, output and error attached.\<close>

theorem runStep_Exec:
  assumes "Mkdir st = []" and "Exec st \<noteq> []"
  shows "Split (Exec st) (CHR '' '') \<noteq> []
       \<and> Join (Split (Exec st) (CHR '' '')) '' '' = Exec st
       \<and> (\<forall>t\<in>set (Split (Exec st) (CHR '' '')). CHR '' '' \<notin> set t)
       \<and> (\<forall>path err. LookPath sys (hd (Split (Exec st) (CHR '' ''))) (host s) = (path, Some err) \<longrightarrow>
             runSteps sys sdk data (st # post) s = (Some err, Fprintf (stepMarker st) s))
       \<and> (\<forall>path. LookPath sys (hd (Split (Exec st) (CHR '' ''))) (host s) = (path, None) \<longrightarrow>
             runStep sys sdk data st s =
               on_host (Run sys \<lparr>Path = path, Args = path # tl (Split (Exec st) (CHR '' '')),
                                 Env = Some (Environ sys (host s)), Stdin = Some OsStdin,
                                 Stdout = Some OsStdout, Stderr = Some OsStderr\<rparr>)
                       (Fprintf (stepMarker st) s))"
proof -
  obtain part0 rest where parts: "Split (Exec st) (CHR '' '') = part0 # rest"
    using Split_nonempty [of "Exec st" "CHR '' ''"] by (cases "Split (Exec st) (CHR '' '')") auto
  have a: "Split (Exec st) (CHR '' '') \<noteq> []"
    by (rule Split_nonempty)
  have b: "Join (Split (Exec st) (CHR '' '')) '' '' = Exec st"
    by (rule Join_Split)
  have c: "\<forall>t\<in>set (Split (Exec st) (CHR '' '')). CHR '' '' \<notin> set t"
    using Split_no_sep by blast
  have d: "runSteps sys sdk data (st # post) s = (Some err, Fprintf (stepMarker st) s)"
    if "LookPath sys (hd (Split (Exec st) (CHR '' ''))) (host s) = (path, Some err)" for path err
    using that assms parts by (simp add: runStep_def host_Fprintf)
  have e: "runStep sys sdk data st s =
               on_host (Run sys \<lparr>Path = path, Args = path # tl (Split (Exec st) (CHR '' '')),
                                 Env = Some (Environ sys (host s)), Stdin = Some OsStdin,
                                 Stdout = Some OsStdout, Stderr = Some OsStderr\<rparr>)
                       (Fprintf (stepMarker st) s)"
    if "LookPath sys (hd (Split (Exec st) (CHR '' ''))) (host s) = (path, None)" for path
    using that assms parts by (simp add: runStep_def host_Fprintf Command_def)
  from a b c d e show ?thesis
    by blast
qed

theorem runStep_Exec_witness:
  "runSteps demo_sys demo_sdk Map.empty (execStep ''two'' ''nope x'' # [mkdirStep ''three'' ''b'']) (demo_state [])
     = (Some (Error ''exec: nope: executable file not found in $PATH''),
        Fprintf (stepMarker (execStep ''two'' ''nope x'')) (demo_state []))
   \<and> runStep demo_sys demo_sdk Map.empty (execStep ''run'' ''echo hi'') (demo_state [])
     = on_host (Run demo_sys \<lparr>Path = ''/bin/echo'', Args = [''/bin/echo'', ''hi''],
                               Env = Some [''HOME=/root''], Stdin = Some OsStdin,
                               Stdout = Some OsStdout, Stderr = Some OsStderr\<rparr>)
               (Fprintf (stepMarker (execStep ''run'' ''echo hi'')) (demo_state []))"
proof -
  have a: "Mkdir (execStep ''two'' ''nope x'') = []" "Exec (execStep ''two'' ''nope x'') \<noteq> []"
    "Mkdir (execStep ''run'' ''echo hi'') = []" "Exec (execStep ''run'' ''echo hi'') \<noteq> []"
    by (simp_all add: execStep_def)
  have s1: "Split (Exec (execStep ''two'' ''nope x'')) (CHR '' '') = [''nope'', ''x'']"
    by (simp add: execStep_def Split_def)
  have s2: "Split (Exec (execStep ''run'' ''echo hi'')) (CHR '' '') = [''echo'', ''hi'']"
    by (simp add: execStep_def Split_def)
  have l1: "LookPath demo_sys ''nope'' (host (demo_state []))
              = ([], Some (Error ''exec: nope: executable file not found in $PATH''))"
    by (simp add: demo_sys_def)
  have l2: "LookPath demo_sys ''echo'' (host (demo_state [])) = (''/bin/echo'', None)"
    by (simp add: demo_sys_def)
  have e: "Environ demo_sys (host (demo_state [])) = [''HOME=/root'']"
    by (simp add: demo_sys_def)
  from runStep_Exec [OF a(1,2), of demo_sys "demo_state []" demo_sdk Map.empty "[mkdirStep ''three'' ''b'']"]
    runStep_Exec [OF a(3,4), of demo_sys "demo_state []" demo_sdk Map.empty "[]"]
    s1 s2 l1 l2 e
  show ?thesis
    by simp
qed

text \<open>Claim C6 as stated says the command line is split on whitespace. On the command
  line \<^verbatim>\<open>echo\<close>, two spaces, \<^verbatim>\<open>hi\<close> the tokens between whitespace are \<^verbatim>\<open>echo\<close> and \<^verbatim>\<open>hi\<close>,
  so the process would get the one argument \<^verbatim>\<open>hi\<close>; the code gives it two arguments, the
  empty text and \<^verbatim>\<open>hi\<close>.\<close>

theorem Exec_whitespace_counterexample:
  "whitespaceTokens ''echo  hi'' = [''echo'', ''hi'']
   \<and> map Args (ran (ext (host (snd (runStep demo_sys demo_sdk Map.empty (execStep ''run'' ''echo  hi'') (demo_state []))))))
       = [[''/bin/echo'', [], ''hi'']]
   \<and> map Args (ran (ext (host (snd (runStep demo_sys demo_sdk Map.empty (execStep ''run'' ''echo  hi'') (demo_state []))))))
       \<noteq> [''/bin/echo'' # tl (whitespaceTokens ''echo  hi'')]"
  by code_simp

subsection \<open>A step with no payload\<close>

text \<open>Claim C8: for every step whose \<^verbatim>\<open>Mkdir\<close>, \<^verbatim>\<open>Exec\<close> and \<^verbatim>\<open>File.Source\<close> are all empty,
  the interpreter fails at once with a configuration error whose message names the step,
  and the plan is aborted: no later step runs.

  After the steps of \<open>pre\<close>, \<^verbatim>\<open>RunDeploy\<close> returns the error for \<open>st\<close>; the final state is
  the one \<open>pre\<close> left plus the progress line of \<open>st\<close>, for every \<open>post\<close>. The message contains
  the name of the step.\<close>

theorem RunDeploy_no_payload:
  assumes "LoadSDKInit sys (Dir sdk @ ''deploy.yaml'') (host s) = Inr p"
    and "Steps (Spec p) = pre @ st # post"
    and "runSteps sys sdk Map.empty pre (Fprintf (banner sdk) s) = (None, s1)"
    and "Mkdir st = []" and "Exec st = []" and "Source (File st) = []"
  shows "RunDeploy sys sdk s =
           (Some (Error (''invalid config step '' @ sq @ Name st @ sq @ '' - no command specified'')),
            Fprintf (stepMarker st) s1)
         \<and> Contains (''invalid config step '' @ sq @ Name st @ sq @ '' - no command specified'') (Name st)"
proof
  from assms(4-6) have "runStep sys sdk Map.empty st s1 = (Some (invalidConfig st), Fprintf (stepMarker st) s1)"
    by (rule runStep_no_payload)
  with assms(1-3) show "RunDeploy sys sdk s =
           (Some (Error (''invalid config step '' @ sq @ Name st @ sq @ '' - no command specified'')),
            Fprintf (stepMarker st) s1)"
    by (simp add: RunDeploy_loaded runSteps_stop invalidConfig_def)
  have "Contains ((''invalid config step '' @ sq) @ Name st @ (sq @ '' - no command specified'')) (Name st)"
    by (rule Contains_mid)
  then show "Contains (''invalid config step '' @ sq @ Name st @ sq @ '' - no command specified'') (Name st)"
    by simp
qed

theorem RunDeploy_no_payload_witness:
  "fst (RunDeploy demo_sys demo_sdk (demo_state plan_invalid))
     = Some (Error (''invalid config step '' @ sq @ ''two'' @ sq @ '' - no command specified''))"
proof -
  let ?s = "demo_state plan_invalid"
  let ?pre = "[mkdirStep ''one'' ''a'']"
  let ?r1 = "runSteps demo_sys demo_sdk Map.empty ?pre (Fprintf (banner demo_sdk) ?s)"
  have h1: "LoadSDKInit demo_sys (Dir demo_sdk @ ''deploy.yaml'') (host ?s) = Inr (sdkInit plan_invalid)"
    by (simp add: demo_sys_def demo_state_def sdkInit_def)
  have h2: "Steps (Spec (sdkInit plan_invalid)) = ?pre @ noStep ''two'' # [mkdirStep ''three'' ''b'']"
    by (simp add: sdkInit_def plan_invalid_def)
  have "fst ?r1 = None"
    by code_simp
  then have h3: "?r1 = (None, snd ?r1)"
    by (simp add: prod_eq_iff)
  have h4: "Mkdir (noStep ''two'') = []" and h5: "Exec (noStep ''two'') = []"
    and h6: "Source (File (noStep ''two'')) = []"
    by (simp_all add: noStep_def)
  have n: "Name (noStep ''two'') = ''two''"
    by (simp add: noStep_def)
  from RunDeploy_no_payload [OF h1 h2 h3 h4 h5 h6] show ?thesis
    by (simp add: n)
qed

subsection \<open>\<^verbatim>\<open>Mkdir\<close> twice\<close>

text \<open>Claim C9: \<^verbatim>\<open>Mkdir\<close> steps are idempotent. For every plan of \<^verbatim>\<open>Mkdir\<close> steps, a second
  execution of the same plan, on the state the first execution has left, produces no
  error: creating a directory that exists already, with its ancestors, is not an error.

  The first execution has returned nil and left \<open>s1\<close>, and the same plan is loaded again.
  Then the second execution returns nil too, and changes nothing but the writer, which
  receives the banner and the progress lines once more. The theorem does not need the
  templates to render without error.\<close>

theorem RunDeploy_Mkdir_idempotent:
  assumes "LoadSDKInit sys (Dir sdk @ ''deploy.yaml'') (host s) = Inr p"
    and "\<forall>st\<in>set (Steps (Spec p)). Mkdir st \<noteq> []"
    and "RunDeploy sys sdk s = (None, s1)"
    and "LoadSDKInit sys (Dir sdk @ ''deploy.yaml'') (host s1) = Inr p"
  shows "RunDeploy sys sdk s1 =
           (None, s1\<lparr>written := written s1 @ banner sdk @ concat (map stepMarker (Steps (Spec p)))\<rparr>)"
proof -
  from assms(1,3) have "runSteps sys sdk Map.empty (Steps (Spec p)) (Fprintf (banner sdk) s) = (None, s1)"
    by (simp add: RunDeploy_loaded)
  from runSteps_Mkdir_made [OF assms(2) this]
  have "\<forall>st\<in>set (Steps (Spec p)). Stat (fsys (host s1)) (dirOf sys Map.empty st) = Inr DirNode"
    by simp
  with assms(2)
  have "\<forall>st\<in>set (Steps (Spec p)). Mkdir st \<noteq> [] \<and>
          Stat (fsys (host (Fprintf (banner sdk) s1))) (dirOf sys Map.empty st) = Inr DirNode"
    by (simp add: host_Fprintf)
  from runSteps_Mkdir_again [OF this] assms(4) show ?thesis
    by (simp add: RunDeploy_loaded Fprintf_def)
qed

theorem RunDeploy_Mkdir_idempotent_witness:
  "fst (RunDeploy demo_sys demo_sdk (snd (RunDeploy demo_sys demo_sdk (demo_state plan_dirs)))) = None"
proof -
  let ?s = "demo_state plan_dirs"
  let ?r = "RunDeploy demo_sys demo_sdk ?s"
  have h1: "LoadSDKInit demo_sys (Dir demo_sdk @ ''deploy.yaml'') (host ?s) = Inr (sdkInit plan_dirs)"
    by (simp add: demo_sys_def demo_state_def sdkInit_def)
  have h2: "\<forall>st\<in>set (Steps (Spec (sdkInit plan_dirs))). Mkdir st \<noteq> []"
    by (simp add: sdkInit_def plan_dirs_def mkdirStep_def)
  have "fst ?r = None"
    by code_simp
  then have h3: "?r = (None, snd ?r)"
    by (simp add: prod_eq_iff)
  have "plan (ext (host (snd ?r))) = sdkInit plan_dirs"
    by code_simp
  then have h4: "LoadSDKInit demo_sys (Dir demo_sdk @ ''deploy.yaml'') (host (snd ?r)) = Inr (sdkInit plan_dirs)"
    by (simp add: demo_sys_def)
  from RunDeploy_Mkdir_idempotent [OF h1 h2 h3 h4] show ?thesis
    by simp
qed

subsection \<open>The order of the tests on a step\<close>

text \<open>Claim C10: step dispatch follows a fixed priority. The \<^verbatim>\<open>Mkdir\<close> payload is tested
  first, then \<^verbatim>\<open>Exec\<close>, then the source of \<^verbatim>\<open>File\<close>, and only the first non-empty one is
  executed: a step with \<^verbatim>\<open>Mkdir\<close> set behaves the same whatever its \<^verbatim>\<open>Exec\<close> and \<^verbatim>\<open>File\<close>
  are; a step with \<^verbatim>\<open>Mkdir\<close> empty and \<^verbatim>\<open>Exec\<close> set behaves the same whatever its \<^verbatim>\<open>File\<close>
  is; and a step whose \<^verbatim>\<open>Mkdir\<close>, \<^verbatim>\<open>Exec\<close> and \<^verbatim>\<open>File.Source\<close> are empty fails with the
  configuration error, whatever its \<^verbatim>\<open>File.Destination\<close> is.\<close>

theorem runStep_priority:
  "(Mkdir st \<noteq> [] \<longrightarrow>
      runStep sys sdk data (st\<lparr>Exec := x, File := f\<rparr>) s = runStep sys sdk data st s)
   \<and> (Mkdir st = [] \<and> Exec st \<noteq> [] \<longrightarrow>
      runStep sys sdk data (st\<lparr>File := f\<rparr>) s = runStep sys sdk data st s)
   \<and> (Mkdir st = [] \<and> Exec st = [] \<and> Source (File st) = [] \<longrightarrow>
      runStep sys sdk data st s = (Some (invalidConfig st), Fprintf (stepMarker st) s))"
  by (simp add: runStep_def stepMarker_def)

theorem runStep_priority_witness:
  "runStep demo_sys demo_sdk Map.empty (bothStep\<lparr>Exec := [], File := \<lparr>Source = [], Destination = []\<rparr>\<rparr>) (demo_state [])
     = runStep demo_sys demo_sdk Map.empty bothStep (demo_state [])
   \<and> runStep demo_sys demo_sdk Map.empty ((execStep ''run'' ''echo hi'')\<lparr>File := \<lparr>Source = ''tmpl'', Destination = ''o''\<rparr>\<rparr>) (demo_state [])
     = runStep demo_sys demo_sdk Map.empty (execStep ''run'' ''echo hi'') (demo_state [])
   \<and> runStep demo_sys demo_sdk Map.empty (noStep ''two'') (demo_state [])
     = (Some (invalidConfig (noStep ''two'')), Fprintf (stepMarker (noStep ''two'')) (demo_state []))"
proof -
  have a: "Mkdir bothStep \<noteq> []"
    by (simp add: bothStep_def)
  have b: "Mkdir (execStep ''run'' ''echo hi'') = [] \<and> Exec (execStep ''run'' ''echo hi'') \<noteq> []"
    by (simp add: execStep_def)
  have c: "Mkdir (noStep ''two'') = [] \<and> Exec (noStep ''two'') = [] \<and> Source (File (noStep ''two'')) = []"
    by (simp add: noStep_def)
  from a b c
    runStep_priority [where st = bothStep and sys = demo_sys and sdk = demo_sdk and data = Map.empty
      and x = "[]" and f = "\<lparr>Source = [], Destination = []\<rparr>" and s = "demo_state []"]
    runStep_priority [where st = "execStep ''run'' ''echo hi''" and sys = demo_sys and sdk = demo_sdk
      and data = Map.empty and f = "\<lparr>Source = ''tmpl'', Destination = ''o''\<rparr>" and s = "demo_state []"]
    runStep_priority [where st = "noStep ''two''" and sys = demo_sys and sdk = demo_sdk
      and data = Map.empty and s = "demo_state []"]
  show ?thesis
    by blast
qed

section \<open>Properties of the harness\<close>

subsection \<open>The namespace poller\<close>

lemma retry_trace_Cons: "retry_trace (c # cs) = c # EvSleep RetrySleepDuration # retry_trace cs"
  by (simp add: retry_trace_def)

lemma retry_trace_Nil: "retry_trace [] = []"
  by (simp add: retry_trace_def)

lemma filter_retry_trace: "length (filter isKubectl (retry_trace (map (probeEv \<circ> Return) outs))) = length outs"
  by (induction outs) (simp_all add: retry_trace_Cons retry_trace_Nil probeEv_def)

lemma checkNamespace_loop_done:
  "\<not> retries < MaxRetries \<Longrightarrow> checkNamespace_loop sys ns created m retries s = (Return True, s)"
  by (simp add: checkNamespace_loop.simps [of sys ns created m retries s])

lemma checkNamespace_loop_exit:
  "retries < MaxRetries \<Longrightarrow>
   kubectl_RunWithOpts sys [''get'', ''namespace''] runOpts0 (cluster s) = (Exit msg, w) \<Longrightarrow>
   checkNamespace_loop sys ns created m retries s =
     (Exit msg, s\<lparr>events := events s @ [probeEv (Exit msg)], cluster := w\<rparr>)"
  by (simp add: checkNamespace_loop.simps [of sys ns created m retries s] kubectlGetNamespace_def
      kubectl_call_def probeEv_def)

lemma checkNamespace_loop_hit:
  "retries < MaxRetries \<Longrightarrow>
   kubectl_RunWithOpts sys [''get'', ''namespace''] runOpts0 (cluster s) = (Return (out, err), w) \<Longrightarrow>
   conditionHolds created out ns \<Longrightarrow>
   checkNamespace_loop sys ns created m retries s =
     (Return True, s\<lparr>events := events s @ [probeEv (Return (out, err))], cluster := w\<rparr>)"
  by (auto simp: checkNamespace_loop.simps [of sys ns created m retries s] kubectlGetNamespace_def
      kubectl_call_def probeEv_def conditionHolds_def)

lemma checkNamespace_loop_retry:
  assumes lt: "retries < MaxRetries"
    and k: "kubectl_RunWithOpts sys [''get'', ''namespace''] runOpts0 (cluster s) = (Return (out, err), w)"
    and miss: "\<not> conditionHolds created out ns"
  shows "\<exists>msg. checkNamespace_loop sys ns created m retries s =
            checkNamespace_loop sys ns created m (retries + 1)
              (time_Sleep sys RetrySleepDuration
                 (logger_Debugf sys msg (s\<lparr>events := events s @ [probeEv (Return (out, err))], cluster := w\<rparr>)))"
proof -
  have g: "kubectlGetNamespace sys s =
             (Return (out, err), s\<lparr>events := events s @ [probeEv (Return (out, err))], cluster := w\<rparr>)"
    using k by (simp add: kubectlGetNamespace_def kubectl_call_def probeEv_def)
  show ?thesis
  proof (cases created)
    case True
    with miss have "\<not> Contains out ns"
      by (simp add: conditionHolds_def)
    with True lt g show ?thesis
      unfolding checkNamespace_loop.simps [of sys ns created m retries s]
      by (simp add: Let_def) (rule exI, rule refl)
  next
    case False
    with miss have "Contains out ns"
      by (simp add: conditionHolds_def)
    with False lt g show ?thesis
      unfolding checkNamespace_loop.simps [of sys ns created m retries s]
      by (simp add: Let_def) (rule exI, rule refl)
  qed
qed

lemma checkNamespace_loop_miss:
  assumes "retries < MaxRetries"
    and "kubectl_RunWithOpts sys [''get'', ''namespace''] runOpts0 (cluster s) = (Return (out, err), w)"
    and "\<not> conditionHolds created out ns"
  shows "\<exists>s3. events s3 = events s @ [probeEv (Return (out, err)), EvSleep RetrySleepDuration] \<and>
        checkNamespace_loop sys ns created m retries s =
          checkNamespace_loop sys ns created m (retries + 1) s3"
proof -
  from checkNamespace_loop_retry [OF assms, of m] obtain msg
    where "checkNamespace_loop sys ns created m retries s =
            checkNamespace_loop sys ns created m (retries + 1)
              (time_Sleep sys RetrySleepDuration
                 (logger_Debugf sys msg (s\<lparr>events := events s @ [probeEv (Return (out, err))], cluster := w\<rparr>)))"
    by blast
  moreover have "events (time_Sleep sys RetrySleepDuration
                 (logger_Debugf sys msg (s\<lparr>events := events s @ [probeEv (Return (out, err))], cluster := w\<rparr>)))
        = events s @ [probeEv (Return (out, err)), EvSleep RetrySleepDuration]"
    by (simp add: time_Sleep_def logger_Debugf_def)
  ultimately show ?thesis
    by blast
qed

lemma checkNamespace_loop_not_False:
  "nat (MaxRetries - retries) = n \<Longrightarrow>
   fst (checkNamespace_loop sys ns created m retries s) \<noteq> Return False"
proof (induction n arbitrary: retries s)
  case 0
  then have "\<not> retries < MaxRetries" by simp
  then show ?case by (simp add: checkNamespace_loop_done)
next
  case (Suc n)
  then have lt: "retries < MaxRetries" and n: "nat (MaxRetries - (retries + 1)) = n"
    by simp_all
  obtain res w where k: "kubectl_RunWithOpts sys [''get'', ''namespace''] runOpts0 (cluster s) = (res, w)"
    by (cases "kubectl_RunWithOpts sys [''get'', ''namespace''] runOpts0 (cluster s)") auto
  show ?case
  proof (cases res)
    case (Exit msg)
    with k lt show ?thesis by (simp add: checkNamespace_loop_exit)
  next
    case (Return oe)
    obtain out err where oe: "oe = (out, err)" by (cases oe) auto
    show ?thesis
    proof (cases "conditionHolds created out ns")
      case True
      with k lt Return oe show ?thesis by (simp add: checkNamespace_loop_hit)
    next
      case False
      from checkNamespace_loop_miss [OF lt k [unfolded Return oe] False, of m]
      obtain s3 where "checkNamespace_loop sys ns created m retries s =
          checkNamespace_loop sys ns created m (retries + 1) s3" by blast
      with Suc.IH [OF n, of s3] show ?thesis by simp
    qed
  qed
qed

lemma checkNamespace_loop_exhaust:
  assumes never: "\<And>w. \<exists>out err w1. kubectl_RunWithOpts sys [''get'', ''namespace''] runOpts0 w = (Return (out, err), w1)
                      \<and> \<not> conditionHolds created out ns"
  shows "nat (MaxRetries - retries) = n \<Longrightarrow>
   \<exists>s1 outs. checkNamespace_loop sys ns created m retries s = (Return True, s1) \<and> length outs = n \<and>
      (\<forall>oe\<in>set outs. \<not> conditionHolds created (fst oe) ns) \<and>
      events s1 = events s @ retry_trace (map (probeEv \<circ> Return) outs)"
proof (induction n arbitrary: retries s)
  case 0
  then have "\<not> retries < MaxRetries" by simp
  then have "checkNamespace_loop sys ns created m retries s = (Return True, s)"
    by (rule checkNamespace_loop_done)
  then show ?case by (simp add: retry_trace_Nil)
next
  case (Suc n)
  then have lt: "retries < MaxRetries" and n: "nat (MaxRetries - (retries + 1)) = n"
    by simp_all
  from never [of "cluster s"] obtain out err w
    where k: "kubectl_RunWithOpts sys [''get'', ''namespace''] runOpts0 (cluster s) = (Return (out, err), w)"
      and miss: "\<not> conditionHolds created out ns"
    by blast
  from checkNamespace_loop_miss [OF lt k miss, of m]
  obtain s3 where ev: "events s3 = events s @ [probeEv (Return (out, err)), EvSleep RetrySleepDuration]"
    and step: "checkNamespace_loop sys ns created m retries s = checkNamespace_loop sys ns created m (retries + 1) s3"
    by blast
  from Suc.IH [OF n, of s3] obtain s1 outs
    where r: "checkNamespace_loop sys ns created m (retries + 1) s3 = (Return True, s1)"
      and len: "length outs = n"
      and all: "\<forall>oe\<in>set outs. \<not> conditionHolds created (fst oe) ns"
      and tr: "events s1 = events s3 @ retry_trace (map (probeEv \<circ> Return) outs)"
    by blast
  let ?outs = "(out, err) # outs"
  from step r have "checkNamespace_loop sys ns created m retries s = (Return True, s1)" by simp
  moreover from len have "length ?outs = Suc n" by simp
  moreover from all miss have "\<forall>oe\<in>set ?outs. \<not> conditionHolds created (fst oe) ns" by simp
  moreover from tr ev have "events s1 = events s @ retry_trace (map (probeEv \<circ> Return) ?outs)"
    by (simp add: retry_trace_Cons)
  ultimately show ?case by blast
qed

lemma checkNamespace_first_hit:
  "kubectl_RunWithOpts sys [''get'', ''namespace''] runOpts0 (cluster s) = (Return (out, err), w) \<Longrightarrow>
   Contains out ns \<Longrightarrow>
   checkNamespace sys ns True m s =
     (Return True, s\<lparr>events := events s @ [probeEv (Return (out, err))], cluster := w\<rparr>)"
  unfolding checkNamespace_def
  by (rule checkNamespace_loop_hit) (simp_all add: MaxRetries_def conditionHolds_def)

text \<open>Claim C2: for every namespace, target state and retry budget, when the poller
  exhausts its retries without the target condition ever holding on a probe's output,
  \<^verbatim>\<open>checkNamespace\<close> still returns true.

  \<^verbatim>\<open>checkNamespace\<close> never returns false. And when the probe returns in every state of
  the control plane with an output on which the condition does not hold, the call makes
  \<^verbatim>\<open>MaxRetries\<close> probes and returns true.\<close>

theorem checkNamespace_always_true:
  "fst (checkNamespace sys ns created maxRetries s) \<noteq> Return False
   \<and> ((\<forall>w. \<exists>out err w1. kubectl_RunWithOpts sys [''get'', ''namespace''] runOpts0 w = (Return (out, err), w1)
              \<and> \<not> conditionHolds created out ns)
        \<longrightarrow> fst (checkNamespace sys ns created maxRetries s) = Return True
            \<and> length (filter isKubectl (drop (length (events s))
                  (events (snd (checkNamespace sys ns created maxRetries s))))) = nat MaxRetries)"
proof (intro conjI impI)
  show "fst (checkNamespace sys ns created maxRetries s) \<noteq> Return False"
    unfolding checkNamespace_def by (rule checkNamespace_loop_not_False [OF refl])
next
  assume "\<forall>w. \<exists>out err w1. kubectl_RunWithOpts sys [''get'', ''namespace''] runOpts0 w = (Return (out, err), w1)
              \<and> \<not> conditionHolds created out ns"
  then have never: "\<And>w. \<exists>out err w1. kubectl_RunWithOpts sys [''get'', ''namespace''] runOpts0 w = (Return (out, err), w1)
              \<and> \<not> conditionHolds created out ns"
    by blast
  from checkNamespace_loop_exhaust [of sys created ns 0 "nat MaxRetries" maxRetries s, OF never]
  obtain s1 outs where r: "checkNamespace sys ns created maxRetries s = (Return True, s1)"
    and len: "length outs = nat MaxRetries"
    and tr: "events s1 = events s @ retry_trace (map (probeEv \<circ> Return) outs)"
    unfolding checkNamespace_def by auto
  from r show "fst (checkNamespace sys ns created maxRetries s) = Return True"
    by simp
  from r tr len show "length (filter isKubectl (drop (length (events s))
                  (events (snd (checkNamespace sys ns created maxRetries s))))) = nat MaxRetries"
    by (simp add: filter_retry_trace)
qed

theorem checkNamespace_always_true_witness:
  "fst (checkNamespace (const_e2e (''ns1 Terminating'', None) proc_ok) ''ns1'' False 10 (estate0 0)) = Return True
   \<and> length (filter isKubectl (drop (length (events (estate0 (0::nat))))
        (events (snd (checkNamespace (const_e2e (''ns1 Terminating'', None) proc_ok) ''ns1'' False 10 (estate0 0))))))
      = nat MaxRetries"
proof -
  have "\<forall>w. \<exists>out err w1.
          kubectl_RunWithOpts (const_e2e (''ns1 Terminating'', None) proc_ok) [''get'', ''namespace''] runOpts0 w
            = (Return (out, err), w1) \<and> \<not> conditionHolds False out ''ns1''"
    by (simp add: const_e2e_def conditionHolds_def)
  with checkNamespace_always_true [of "const_e2e (''ns1 Terminating'', None) proc_ok" "''ns1''" False 10 "estate0 0"]
  show ?thesis
    by blast
qed

text \<open>Claim C4: with the target present, a first probe whose output contains the name
  gives true after exactly one probe and no sleep; and for every budget \<^verbatim>\<open>maxAttempts\<close>,
  when no probe output ever contains the name, the probe is invoked exactly
  \<^verbatim>\<open>maxAttempts\<close> times with the fixed interval slept between attempts.

  The first part holds (\<open>checkNamespace_first_hit\<close>). The second does not: the loop is
  bounded by the constant \<^verbatim>\<open>MaxRetries\<close>, and the parameter \<^verbatim>\<open>maxRetries\<close> only appears in
  the debug line, whereas the loop of \<^verbatim>\<open>createNamespace\<close> is bounded by its parameter. With
  a budget of 3 and a control plane whose listing never contains the name, the probe is
  invoked 10 times.\<close>

theorem checkNamespace_ignores_budget:
  "length (filter isKubectl (events (snd (checkNamespace (const_e2e ([], None) proc_ok) ''ns1'' True 3 (estate0 0))))) = 10
   \<and> fst (checkNamespace (const_e2e ([], None) proc_ok) ''ns1'' True 3 (estate0 0)) = Return True"
proof -
  have never: "\<exists>out err w1. kubectl_RunWithOpts (const_e2e ([], None) proc_ok) [''get'', ''namespace''] runOpts0 w
                  = (Return (out, err), w1) \<and> \<not> conditionHolds True out ''ns1''" for w
    by (simp add: const_e2e_def conditionHolds_def)
  from checkNamespace_loop_exhaust [of "const_e2e ([], None) proc_ok" True "''ns1''" 0 "nat MaxRetries" 3 "estate0 0", OF never]
  obtain s1 outs where r: "checkNamespace (const_e2e ([], None) proc_ok) ''ns1'' True 3 (estate0 0) = (Return True, s1)"
    and len: "length outs = nat MaxRetries"
    and tr: "events s1 = events (estate0 (0::nat)) @ retry_trace (map (probeEv \<circ> Return) outs)"
    unfolding checkNamespace_def by auto
  from r tr len show ?thesis
    by (simp add: filter_retry_trace estate0_def MaxRetries_def)
qed

subsection \<open>The bounded retry of the create call\<close>

lemma createNamespace_loop_done:
  "\<not> retries < m \<Longrightarrow> createNamespace_loop sys ns m retries out err s = (Return (out, err), s)"
  by (simp add: createNamespace_loop.simps [of sys ns m retries out err s])

lemma kubectlCreateNamespace_eq:
  "kubectl_RunWithOpts sys [''create'', ''namespace'', ns] (runOpts0\<lparr>AllowError := True\<rparr>) (cluster s) = (res, w) \<Longrightarrow>
   kubectlCreateNamespace sys ns s = (res, s\<lparr>events := events s @ [createEv ns res], cluster := w\<rparr>)"
  by (simp add: kubectlCreateNamespace_def kubectl_call_def createEv_def)

lemma createNamespace_loop_exit:
  "retries < m \<Longrightarrow>
   kubectl_RunWithOpts sys [''create'', ''namespace'', ns] (runOpts0\<lparr>AllowError := True\<rparr>) (cluster s) = (Exit msg, w) \<Longrightarrow>
   createNamespace_loop sys ns m retries out err s =
     (Exit msg, s\<lparr>events := events s @ [createEv ns (Exit msg)], cluster := w\<rparr>)"
  by (simp add: createNamespace_loop.simps [of sys ns m retries out err s] kubectlCreateNamespace_eq)

lemma createNamespace_loop_success:
  "retries < m \<Longrightarrow>
   kubectl_RunWithOpts sys [''create'', ''namespace'', ns] (runOpts0\<lparr>AllowError := True\<rparr>) (cluster s) = (Return (out1, None), w) \<Longrightarrow>
   createNamespace_loop sys ns m retries out err s =
     (Return (out1, None), s\<lparr>events := events s @ [createEv ns (Return (out1, None))], cluster := w\<rparr>)"
  by (simp add: createNamespace_loop.simps [of sys ns m retries out err s] kubectlCreateNamespace_eq)

lemma createNamespace_loop_retry:
  assumes "retries < m"
    and "kubectl_RunWithOpts sys [''create'', ''namespace'', ns] (runOpts0\<lparr>AllowError := True\<rparr>) (cluster s) = (Return (out1, Some e), w)"
  shows "\<exists>s3. events s3 = events s @ [createEv ns (Return (out1, Some e)), EvSleep RetrySleepDuration] \<and>
          createNamespace_loop sys ns m retries out err s =
            createNamespace_loop sys ns m (retries + 1) out1 (Some e) s3"
proof -
  have "\<exists>msg. createNamespace_loop sys ns m retries out err s =
            createNamespace_loop sys ns m (retries + 1) out1 (Some e)
              (time_Sleep sys RetrySleepDuration
                 (logger_Debugf sys msg (s\<lparr>events := events s @ [createEv ns (Return (out1, Some e))], cluster := w\<rparr>)))"
    unfolding createNamespace_loop.simps [of sys ns m retries out err s]
    using assms by (simp add: Let_def kubectlCreateNamespace_eq) (rule exI, rule refl)
  then obtain msg where "createNamespace_loop sys ns m retries out err s =
            createNamespace_loop sys ns m (retries + 1) out1 (Some e)
              (time_Sleep sys RetrySleepDuration
                 (logger_Debugf sys msg (s\<lparr>events := events s @ [createEv ns (Return (out1, Some e))], cluster := w\<rparr>)))"
    by blast
  moreover have "events (time_Sleep sys RetrySleepDuration
                 (logger_Debugf sys msg (s\<lparr>events := events s @ [createEv ns (Return (out1, Some e))], cluster := w\<rparr>)))
        = events s @ [createEv ns (Return (out1, Some e)), EvSleep RetrySleepDuration]"
    by (simp add: time_Sleep_def logger_Debugf_def)
  ultimately show ?thesis
    by blast
qed

lemma createNamespace_loop_trace:
  "nat (m - retries) = n \<Longrightarrow> createNamespace_loop sys ns m retries out0 err0 s = (r, s1) \<Longrightarrow>
   \<exists>fails. (\<forall>f\<in>set fails. \<exists>out e. f = (out, Some e)) \<and>
     ((\<exists>out. r = Return (out, None) \<and> length fails < n \<and>
          events s1 = events s @ retry_trace (map (createEv ns \<circ> Return) fails) @ [createEv ns (Return (out, None))])
    \<or> (r = Return (last ((out0, err0) # fails)) \<and> length fails = n \<and>
          events s1 = events s @ retry_trace (map (createEv ns \<circ> Return) fails))
    \<or> (\<exists>msg. r = Exit msg \<and> length fails < n \<and>
          events s1 = events s @ retry_trace (map (createEv ns \<circ> Return) fails) @ [createEv ns (Exit msg)]))"
proof (induction n arbitrary: retries out0 err0 s)
  case 0
  then have "\<not> retries < m" by simp
  with "0.prems"(2) have "r = Return (out0, err0)" "s1 = s"
    by (simp_all add: createNamespace_loop_done)
  then have "(\<forall>f\<in>set []. \<exists>out e. f = (out, Some e)) \<and> r = Return (last ((out0, err0) # [])) \<and> length ([] :: (string \<times> error option) list) = 0 \<and>
          events s1 = events s @ retry_trace (map (createEv ns \<circ> Return) [])"
    by (simp add: retry_trace_Nil)
  then show ?case by blast
next
  case (Suc n)
  then have lt: "retries < m" and n: "nat (m - (retries + 1)) = n"
    by simp_all
  obtain res w where k: "kubectl_RunWithOpts sys [''create'', ''namespace'', ns] (runOpts0\<lparr>AllowError := True\<rparr>) (cluster s) = (res, w)"
    by (cases "kubectl_RunWithOpts sys [''create'', ''namespace'', ns] (runOpts0\<lparr>AllowError := True\<rparr>) (cluster s)") auto
  show ?case
  proof (cases res)
    case (Exit msg)
    from createNamespace_loop_exit [OF lt k [unfolded Exit], of out0 err0] Suc.prems(2)
    have "r = Exit msg" "events s1 = events s @ [createEv ns (Exit msg)]"
      by auto
    then have "(\<forall>f\<in>set []. \<exists>out e. f = (out, Some e)) \<and> r = Exit msg \<and> length ([] :: (string \<times> error option) list) < Suc n \<and>
          events s1 = events s @ retry_trace (map (createEv ns \<circ> Return) []) @ [createEv ns (Exit msg)]"
      by (simp add: retry_trace_Nil)
    then show ?thesis by blast
  next
    case (Return oe)
    obtain out1 err1 where oe: "oe = (out1, err1)" by (cases oe) auto
    show ?thesis
    proof (cases err1)
      case None
      from createNamespace_loop_success [OF lt k [unfolded Return oe None], of out0 err0] Suc.prems(2)
      have "r = Return (out1, None)" "events s1 = events s @ [createEv ns (Return (out1, None))]"
        by auto
      then have "(\<forall>f\<in>set []. \<exists>out e. f = (out, Some e)) \<and> r = Return (out1, None) \<and> length ([] :: (string \<times> error option) list) < Suc n \<and>
          events s1 = events s @ retry_trace (map (createEv ns \<circ> Return) []) @ [createEv ns (Return (out1, None))]"
        by (simp add: retry_trace_Nil)
      then show ?thesis by blast
    next
      case (Some e)
      from createNamespace_loop_retry [OF lt k [unfolded Return oe Some], of out0 err0]
      obtain s3 where ev: "events s3 = events s @ [createEv ns (Return (out1, Some e)), EvSleep RetrySleepDuration]"
        and step: "createNamespace_loop sys ns m retries out0 err0 s =
            createNamespace_loop sys ns m (retries + 1) out1 (Some e) s3"
        by blast
      from step Suc.prems(2) have "createNamespace_loop sys ns m (retries + 1) out1 (Some e) s3 = (r, s1)"
        by simp
      from Suc.IH [OF n this] obtain fails where all: "\<forall>f\<in>set fails. \<exists>out e. f = (out, Some e)"
        and shape: "(\<exists>out. r = Return (out, None) \<and> length fails < n \<and>
          events s1 = events s3 @ retry_trace (map (createEv ns \<circ> Return) fails) @ [createEv ns (Return (out, None))])
    \<or> (r = Return (last ((out1, Some e) # fails)) \<and> length fails = n \<and>
          events s1 = events s3 @ retry_trace (map (createEv ns \<circ> Return) fails))
    \<or> (\<exists>msg. r = Exit msg \<and> length fails < n \<and>
          events s1 = events s3 @ retry_trace (map (createEv ns \<circ> Return) fails) @ [createEv ns (Exit msg)])"
        by blast
      let ?fails = "(out1, Some e) # fails"
      have pre: "events s3 @ retry_trace (map (createEv ns \<circ> Return) fails)
                 = events s @ retry_trace (map (createEv ns \<circ> Return) ?fails)"
        by (simp add: ev retry_trace_Cons)
      from all have all': "\<forall>f\<in>set ?fails. \<exists>out e. f = (out, Some e)"
        by simp
      from shape have "(\<exists>out. r = Return (out, None) \<and> length ?fails < Suc n \<and>
          events s1 = events s @ retry_trace (map (createEv ns \<circ> Return) ?fails) @ [createEv ns (Return (out, None))])
    \<or> (r = Return (last ((out0, err0) # ?fails)) \<and> length ?fails = Suc n \<and>
          events s1 = events s @ retry_trace (map (createEv ns \<circ> Return) ?fails))
    \<or> (\<exists>msg. r = Exit msg \<and> length ?fails < Suc n \<and>
          events s1 = events s @ retry_trace (map (createEv ns \<circ> Return) ?fails) @ [createEv ns (Exit msg)])"
        using pre by (elim disjE exE conjE) (simp_all del: append_assoc add: append_assoc [symmetric])
      with all' show ?thesis by blast
    qed
  qed
qed

text \<open>Claim C7: on the first attempt whose create command succeeds, \<^verbatim>\<open>createNamespace\<close>
  returns that attempt's output with a nil error and makes no further attempt; if every
  one of the \<^verbatim>\<open>maxRetries\<close> attempts fails, it returns the last attempt's output and error,
  having slept the fixed interval between consecutive attempts.

  Every call of \<^verbatim>\<open>createNamespace\<close> has one of three shapes, read off the events it adds.
  A number of failed attempts smaller than the budget, each followed by the sleep, and
  then a successful attempt, whose output is returned with a nil error and which is the
  last event. Or exactly \<^verbatim>\<open>maxRetries\<close> failed attempts, each followed by the sleep, and
  the output and error of the last of them returned (with no attempt at all, for a
  budget of zero or less, the empty output and nil). Or, after fewer failed attempts than
  the budget, a call of the \<^verbatim>\<open>kubectl\<close> wrapper that ends the process.\<close>

theorem createNamespace_retry:
  assumes "createNamespace sys ns maxRetries s = (r, s1)"
  shows "\<exists>fails. (\<forall>f\<in>set fails. \<exists>out e. f = (out, Some e)) \<and>
     ((\<exists>out. r = Return (out, None) \<and> length fails < nat maxRetries \<and>
          events s1 = events s @ retry_trace (map (createEv ns \<circ> Return) fails) @ [createEv ns (Return (out, None))])
    \<or> (r = Return (last (([], None) # fails)) \<and> length fails = nat maxRetries \<and>
          events s1 = events s @ retry_trace (map (createEv ns \<circ> Return) fails))
    \<or> (\<exists>msg. r = Exit msg \<and> length fails < nat maxRetries \<and>
          events s1 = events s @ retry_trace (map (createEv ns \<circ> Return) fails) @ [createEv ns (Exit msg)]))"
  using createNamespace_loop_trace [of maxRetries 0 "nat maxRetries" sys ns "[]" None s r s1] assms
  by (simp add: createNamespace_def)

theorem createNamespace_retry_witness:
  "fst (createNamespace scripted_e2e ''ns1'' 3 (estate0 create_script)) = Return (''namespace/ns1 created'', None)
   \<and> (\<exists>fails. (\<forall>f\<in>set fails. \<exists>out e. f = (out, Some e)) \<and>
     ((\<exists>out. fst (createNamespace scripted_e2e ''ns1'' 3 (estate0 create_script)) = Return (out, None)
          \<and> length fails < nat 3 \<and>
          events (snd (createNamespace scripted_e2e ''ns1'' 3 (estate0 create_script)))
            = events (estate0 create_script) @ retry_trace (map (createEv ''ns1'' \<circ> Return) fails)
                @ [createEv ''ns1'' (Return (out, None))])
    \<or> (fst (createNamespace scripted_e2e ''ns1'' 3 (estate0 create_script)) = Return (last (([], None) # fails))
          \<and> length fails = nat 3 \<and>
          events (snd (createNamespace scripted_e2e ''ns1'' 3 (estate0 create_script)))
            = events (estate0 create_script) @ retry_trace (map (createEv ''ns1'' \<circ> Return) fails))
    \<or> (\<exists>msg. fst (createNamespace scripted_e2e ''ns1'' 3 (estate0 create_script)) = Exit msg
          \<and> length fails < nat 3 \<and>
          events (snd (createNamespace scripted_e2e ''ns1'' 3 (estate0 create_script)))
            = events (estate0 create_script) @ retry_trace (map (createEv ''ns1'' \<circ> Return) fails)
                @ [createEv ''ns1'' (Exit msg)])))"
proof
  show "fst (createNamespace scripted_e2e ''ns1'' 3 (estate0 create_script)) = Return (''namespace/ns1 created'', None)"
    by code_simp
  have "createNamespace scripted_e2e ''ns1'' 3 (estate0 create_script)
          = (fst (createNamespace scripted_e2e ''ns1'' 3 (estate0 create_script)),
             snd (createNamespace scripted_e2e ''ns1'' 3 (estate0 create_script)))"
    by simp
  from createNamespace_retry [OF this]
  show "\<exists>fails. (\<forall>f\<in>set fails. \<exists>out e. f = (out, Some e)) \<and>
     ((\<exists>out. fst (createNamespace scripted_e2e ''ns1'' 3 (estate0 create_script)) = Return (out, None)
          \<and> length fails < nat 3 \<and>
          events (snd (createNamespace scripted_e2e ''ns1'' 3 (estate0 create_script)))
            = events (estate0 create_script) @ retry_trace (map (createEv ''ns1'' \<circ> Return) fails)
                @ [createEv ''ns1'' (Return (out, None))])
    \<or> (fst (createNamespace scripted_e2e ''ns1'' 3 (estate0 create_script)) = Return (last (([], None) # fails))
          \<and> length fails = nat 3 \<and>
          events (snd (createNamespace scripted_e2e ''ns1'' 3 (estate0 create_script)))
            = events (estate0 create_script) @ retry_trace (map (createEv ''ns1'' \<circ> Return) fails))
    \<or> (\<exists>msg. fst (createNamespace scripted_e2e ''ns1'' 3 (estate0 create_script)) = Exit msg
          \<and> length fails < nat 3 \<and>
          events (snd (createNamespace scripted_e2e ''ns1'' 3 (estate0 create_script)))
            = events (estate0 create_script) @ retry_trace (map (createEv ''ns1'' \<circ> Return) fails)
                @ [createEv ''ns1'' (Exit msg)]))" .
qed

subsection \<open>The process runner\<close>

text \<open>Claim C5: when the child process exits non-zero or cannot be started and
  \<^verbatim>\<open>AllowError\<close> is false, the runner ends the whole run instead of returning; when
  \<^verbatim>\<open>AllowError\<close> is true it returns an error value whose message contains the captured
  standard error and the underlying error, and the caller goes on; exit code zero gives
  the captured standard output and a nil error.

  \<open>p\<close> is what the child process has left: the error of \<^verbatim>\<open>cmd.Run()\<close> is nil exactly for
  exit code zero. The end of the run is that of \<open>logger_Fatalf\<close>.\<close>

theorem runCLIWithOpts_error_policy:
  assumes "cmdRun sys cli args opts s = (p, w)"
  shows "(run_err p = None \<longrightarrow>
            fst (runCLIWithOpts sys cli args opts s)
              = Return (if StdoutWriter opts = None then stdout_text p else [], None))
   \<and> (\<forall>e. run_err p = Some e \<and> \<not> AllowError opts \<longrightarrow>
            (\<exists>msg. fst (runCLIWithOpts sys cli args opts s) = Exit msg))
   \<and> (\<forall>e. run_err p = Some e \<and> AllowError opts \<longrightarrow>
            (\<exists>msg. fst (runCLIWithOpts sys cli args opts s)
                      = Return (if StdoutWriter opts = None then stdout_text p else [], Some (Error msg))
                  \<and> Contains msg (stderr_text p) \<and> Contains msg (error_msg e)))"
proof -
  from assms have run: "exec_Run sys
         ((Command cli args)\<lparr>Stderr := Some StderrBuffer,
            Stdout := (case StdoutWriter opts of Some wr \<Rightarrow> Some wr | None \<Rightarrow> Some StdoutBuffer),
            Stdin := StdinReader opts\<rparr>)
         (CancelCh opts)
         (cluster (logger_Debugf sys (''Running '' @ sq @ cmdCLIDesc cli args @ sq @ ''...'' @ nl) s)) = (p, w)"
    by (simp add: cmdRun_def cliCmd_def Command_def logger_Debugf_def)
  have a: "fst (runCLIWithOpts sys cli args opts s)
              = Return (if StdoutWriter opts = None then stdout_text p else [], None)"
    if "run_err p = None"
    unfolding runCLIWithOpts_def Let_def run using that by simp
  have b: "\<exists>msg. fst (runCLIWithOpts sys cli args opts s) = Exit msg"
    if "run_err p = Some e" "\<not> AllowError opts" for e
    unfolding runCLIWithOpts_def Let_def run using that by (simp add: logger_Fatalf_def)
  have c: "\<exists>msg. fst (runCLIWithOpts sys cli args opts s)
                      = Return (if StdoutWriter opts = None then stdout_text p else [], Some (Error msg))
                  \<and> Contains msg (stderr_text p) \<and> Contains msg (error_msg e)"
    if "run_err p = Some e" "AllowError opts" for e
  proof -
    let ?msg = "''Execution error: stderr: '' @ sq @ stderr_text p @ sq @ '' error: '' @ sq @ error_msg e @ sq"
    have "fst (runCLIWithOpts sys cli args opts s)
            = Return (if StdoutWriter opts = None then stdout_text p else [], Some (Error ?msg))"
      unfolding runCLIWithOpts_def Let_def run using that by simp
    moreover have "Contains ((''Execution error: stderr: '' @ sq) @ stderr_text p @ (sq @ '' error: '' @ sq @ error_msg e @ sq)) (stderr_text p)"
      by (rule Contains_mid)
    moreover have "Contains ((''Execution error: stderr: '' @ sq @ stderr_text p @ sq @ '' error: '' @ sq) @ error_msg e @ sq) (error_msg e)"
      by (rule Contains_mid)
    ultimately show ?thesis
      by (intro exI [of _ ?msg]) simp
  qed
  from a b c show ?thesis
    by blast
qed

theorem runCLIWithOpts_error_policy_witness:
  "fst (runCLIWithOpts (const_e2e ([], None) proc_ok) ''kubectl'' [''get'', ''namespace''] runOpts0 (estate0 0))
     = Return (''NAME STATUS'', None)
   \<and> (\<exists>msg. fst (runCLIWithOpts (const_e2e ([], None) proc_failed) ''kubectl'' [''get'', ''namespace''] runOpts0 (estate0 0))
          = Exit msg)
   \<and> (\<exists>msg. fst (runCLIWithOpts (const_e2e ([], None) proc_failed) ''kubectl'' [''get'', ''namespace'']
                    (runOpts0\<lparr>AllowError := True\<rparr>) (estate0 0))
          = Return ([], Some (Error msg))
        \<and> Contains msg ''Error from server (NotFound)'' \<and> Contains msg ''exit status 1'')"
proof -
  have a: "cmdRun (const_e2e ([], None) proc_ok) ''kubectl'' [''get'', ''namespace''] runOpts0 (estate0 0) = (proc_ok, Suc 0)"
    by (simp add: cmdRun_def const_e2e_def estate0_def)
  have b: "cmdRun (const_e2e ([], None) proc_failed) ''kubectl'' [''get'', ''namespace''] runOpts0 (estate0 0) = (proc_failed, Suc 0)"
    by (simp add: cmdRun_def const_e2e_def estate0_def)
  have c: "cmdRun (const_e2e ([], None) proc_failed) ''kubectl'' [''get'', ''namespace''] (runOpts0\<lparr>AllowError := True\<rparr>) (estate0 0) = (proc_failed, Suc 0)"
    by (simp add: cmdRun_def const_e2e_def estate0_def)
  from runCLIWithOpts_error_policy [OF a] runCLIWithOpts_error_policy [OF b] runCLIWithOpts_error_policy [OF c]
  show ?thesis
    by (simp add: proc_ok_def proc_failed_def runOpts0_def)
qed

end
